theory Spec2Isabelle
  imports Main
begin

section \<open>Python strings\<close>

text \<open>
  A Python \<open>str\<close> is modelled as a \<open>string\<close>. The three string operations that
  \<open>app.py\<close> uses are \<open>s.strip()\<close>, \<open>s.lower()\<close> and \<open>a in b\<close>; they are written
  out for the ASCII range (white space is the characters 9 to 13, 28 to 31 and 32;
  only \<open>A\<close> to \<open>Z\<close> change under \<open>lower\<close>).
\<close>

definition is_space :: "char \<Rightarrow> bool" where
  "is_space c = (let n = (of_char c :: nat) in (9 \<le> n \<and> n \<le> 13) \<or> (28 \<le> n \<and> n \<le> 32))"

definition strip :: "string \<Rightarrow> string" where
  "strip s = rev (dropWhile is_space (rev (dropWhile is_space s)))"

definition lower_char :: "char \<Rightarrow> char" where
  "lower_char c = (let n = (of_char c :: nat) in if 65 \<le> n \<and> n \<le> 90 then char_of (n + 32) else c)"

definition lower :: "string \<Rightarrow> string" where
  "lower s = map lower_char s"

fun startswith :: "string \<Rightarrow> string \<Rightarrow> bool" where
  "startswith s [] = True"
| "startswith [] (p # ps) = False"
| "startswith (c # cs) (p # ps) = (c = p \<and> startswith cs ps)"

text \<open>\<open>str_in a b\<close> is Python's \<open>a in b\<close> on two strings.\<close>

fun str_in :: "string \<Rightarrow> string \<Rightarrow> bool" where
  "str_in a [] = (a = [])"
| "str_in a (c # cs) = (startswith (c # cs) a \<or> str_in a cs)"

text \<open>\<open>str(i)\<close> for a Python \<open>int\<close>: the decimal digits, with a minus sign below zero.\<close>

fun str_nat :: "nat \<Rightarrow> string" where
  "str_nat n = (if n < 10 then [char_of (48 + n)] else str_nat (n div 10) @ [char_of (48 + n mod 10)])"

definition str_int :: "int \<Rightarrow> string" where
  "str_int i = (if i < 0 then CHR ''-'' # str_nat (nat (- i)) else str_nat (nat i))"

text \<open>
  The truth value of an optional string argument, as tested by \<open>if cif:\<close> and
  \<open>if denumire:\<close>: \<open>None\<close> and the empty string are false.
\<close>

fun truthy :: "string option \<Rightarrow> bool" where
  "truthy None = False"
| "truthy (Some s) = (s \<noteq> [])"


section \<open>pandas values and frames\<close>

text \<open>
  A cell of a frame read by \<open>pd.read_csv\<close> is missing (\<open>NaN\<close>, here \<open>None\<close>) or
  holds a scalar: text, an integer, a float or a boolean. The float type is the type
  parameter \<open>'v\<close>: the scans only add floats and compare them, and the sort asks
  which of them are NaN. A float in a cell is a number or an infinity: in a column
  pandas has one value for the float NaN and the missing cell, which is \<open>None\<close> here.
\<close>

datatype 'v scalar = VStr string | VInt int | VFlt 'v | VBool bool

type_synonym 'v cell = "'v scalar option"

datatype dtype = Int64 | Float64 | BoolT | Object

text \<open>
  A \<open>DataFrame\<close>: the column labels, the dtype of each column and the rows in order.
  A row that is shorter than the header reads as missing in the columns it lacks,
  which is how \<open>read_csv\<close> pads a short record.
\<close>

record 'v dataframe =
  columns :: "string list"
  dtypes :: "dtype list"
  rows :: "'v cell list list"

definition cell_at :: "'v cell list \<Rightarrow> nat \<Rightarrow> 'v cell" where
  "cell_at r j = (if j < length r then r ! j else None)"

definition dtype_at :: "'v dataframe \<Rightarrow> nat \<Rightarrow> dtype" where
  "dtype_at df j = (if j < length (dtypes df) then dtypes df ! j else Object)"

text \<open>
  The position of a label in a header, \<open>None\<close> when the header does not have it.
  \<open>read_csv\<close> makes the labels of a header pairwise different, so a label that occurs
  names one column.
\<close>

fun column_pos :: "string list \<Rightarrow> string \<Rightarrow> nat option" where
  "column_pos [] name = None"
| "column_pos (c # cs) name =
     (if c = name then Some 0 else map_option Suc (column_pos cs name))"

text \<open>\<open>df.empty\<close>: an axis of the frame has length zero.\<close>

definition empty :: "'v dataframe \<Rightarrow> bool" where
  "empty df = (rows df = [] \<or> columns df = [])"

text \<open>\<open>pd.DataFrame()\<close>: no columns and no rows.\<close>

definition pd_DataFrame :: "'v dataframe" where
  "pd_DataFrame = \<lparr>columns = [], dtypes = [], rows = []\<rparr>"

text \<open>
  \<open>pd.concat(frames)\<close> on a non-empty list of frames that share their header, as the
  chunks of one \<open>read_csv\<close> do: the rows of all frames in order. The rows are kept as
  they were read; the casts by which pandas unifies the dtype of a column whose chunks
  disagree are not modelled.
\<close>

definition pd_concat :: "'v dataframe list \<Rightarrow> 'v dataframe" where
  "pd_concat dfs =
     \<lparr>columns = (case dfs of [] \<Rightarrow> [] | d # _ \<Rightarrow> columns d),
      dtypes = (case dfs of [] \<Rightarrow> [] | d # _ \<Rightarrow> dtypes d),
      rows = concat (map rows dfs)\<rparr>"


section \<open>Library functions taken as parameters\<close>

text \<open>
  What \<open>app.py\<close> calls in Python and pandas and does not define is a parameter of the
  model:
  \<^item> \<open>float_of_str s\<close> is \<open>float(s)\<close> on a \<open>str\<close>, \<open>None\<close> when it raises \<open>ValueError\<close>;
  \<^item> \<open>float_of_int i\<close> is \<open>float(i)\<close> on an \<open>int\<close>;
  \<^item> \<open>str_of_float x\<close> is \<open>str(x)\<close> on a \<open>float\<close>;
  \<^item> \<open>isnan x\<close> is \<open>math.isnan(x)\<close>, the test by which pandas tells a NaN float;
  \<^item> \<open>re_search p\<close> is the regular expression \<open>p\<close> compiled with \<open>re.IGNORECASE\<close>, as a
    test "the pattern is found in this string", \<open>None\<close> when \<open>p\<close> does not compile;
  \<^item> \<open>infer_dtype fields\<close> is the dtype that \<open>read_csv\<close> gives a column of one chunk from
    the text of its fields, and \<open>parse_field t s\<close> is the cell that a field \<open>s\<close> becomes in
    a column of dtype \<open>t\<close>.
\<close>

record 'v pylib =
  float_of_str :: "string \<Rightarrow> 'v option"
  float_of_int :: "int \<Rightarrow> 'v"
  str_of_float :: "'v \<Rightarrow> string"
  isnan :: "'v \<Rightarrow> bool"
  re_search :: "string \<Rightarrow> (string \<Rightarrow> bool) option"
  infer_dtype :: "string list \<Rightarrow> dtype"
  parse_field :: "dtype \<Rightarrow> string \<Rightarrow> 'v cell"

text \<open>\<open>str(v)\<close> and \<open>float(v)\<close> on a scalar; \<open>None\<close> is the \<open>ValueError\<close> of \<open>float\<close>.\<close>

fun py_str :: "'v pylib \<Rightarrow> 'v scalar \<Rightarrow> string" where
  "py_str L (VStr s) = s"
| "py_str L (VInt i) = str_int i"
| "py_str L (VFlt x) = str_of_float L x"
| "py_str L (VBool b) = (if b then ''True'' else ''False'')"

fun py_float :: "'v pylib \<Rightarrow> 'v scalar \<Rightarrow> 'v option" where
  "py_float L (VStr s) = float_of_str L s"
| "py_float L (VInt i) = Some (float_of_int L i)"
| "py_float L (VFlt x) = Some x"
| "py_float L (VBool b) = Some (float_of_int L (if b then 1 else 0))"

text \<open>One cell of \<open>series.astype(str)\<close>: a missing cell becomes the text \<open>nan\<close>.\<close>

fun astype_str :: "'v pylib \<Rightarrow> 'v cell \<Rightarrow> string" where
  "astype_str L None = ''nan''"
| "astype_str L (Some v) = py_str L v"


section \<open>Reading a source in chunks\<close>

text \<open>
  A source is a CSV file after tokenising: the header line and the records, each a list
  of field texts. \<open>CHUNKSIZE\<close> is the configured number of rows per chunk.
\<close>

record source =
  header :: "string list"
  records :: "string list list"

definition CHUNKSIZE :: nat where
  "CHUNKSIZE = 50000"

datatype error =
    KeyError string
  | AttributeError
  | ReError
  | ValueError
  | EmptyDataError

definition field_at :: "string list \<Rightarrow> nat \<Rightarrow> string" where
  "field_at r j = (if j < length r then r ! j else [])"

text \<open>
  Consecutive windows of \<open>n\<close> records, the last one possibly shorter. The reader
  is only iterated with \<open>n\<close> at least one.
\<close>

function windows :: "nat \<Rightarrow> 'a list \<Rightarrow> 'a list list" where
  "windows n xs = (if n = 0 \<or> xs = [] then [] else take n xs # windows n (drop n xs))"
  by pat_completeness auto
termination
  by (relation "measure (\<lambda>(n, xs). length xs)") auto

declare windows.simps [simp del]

text \<open>
  One chunk: each column gets the dtype inferred from the fields of this window only,
  and each field is parsed at the dtype of its column.
\<close>

definition read_chunk :: "'v pylib \<Rightarrow> string list \<Rightarrow> string list list \<Rightarrow> 'v dataframe" where
  "read_chunk L hdr w =
     (let ts = map (\<lambda>j. infer_dtype L (map (\<lambda>r. field_at r j) w)) [0 ..< length hdr]
      in \<lparr>columns = hdr,
          dtypes = ts,
          rows = map (\<lambda>r. map (\<lambda>j. parse_field L (ts ! j) (field_at r j)) [0 ..< length hdr]) w\<rparr>)"

text \<open>
  \<open>pd.read_csv(url, chunksize=n, low_memory=False)\<close>, iterated to its end. A file with
  no columns raises \<open>EmptyDataError\<close> and a chunk size below one raises \<open>ValueError\<close>.
  A file that has a header and no record yields a single chunk without rows.
\<close>

definition read_csv :: "'v pylib \<Rightarrow> source \<Rightarrow> nat \<Rightarrow> error + 'v dataframe list" where
  "read_csv L src chunksize =
     (if chunksize = 0 then Inl ValueError
      else if header src = [] then Inl EmptyDataError
      else if records src = [] then Inr [read_chunk L (header src) []]
      else Inr (map (read_chunk L (header src))
                  (windows chunksize (records src))))"


section \<open>Filter-Scan: \<open>search_csv\<close>\<close>

text \<open>
  Line 69: \<open>chunk = chunk[chunk['cod fiscal'].astype(str) == cif.strip()]\<close>.
  The label is looked up as written; a header without it raises \<open>KeyError\<close>.
\<close>

definition filter_cif :: "'v pylib \<Rightarrow> string \<Rightarrow> 'v dataframe \<Rightarrow> error + 'v dataframe" where
  "filter_cif L cif chunk =
     (case column_pos (columns chunk) ''cod fiscal'' of
        None \<Rightarrow> Inl (KeyError ''cod fiscal'')
      | Some j \<Rightarrow>
          Inr (chunk\<lparr>rows := filter (\<lambda>r. astype_str L (cell_at r j) = strip cif) (rows chunk)\<rparr>))"

text \<open>
  Line 71: \<open>chunk = chunk[chunk['denumire'].str.contains(denumire.strip(), case=False, na=False)]\<close>.
  The \<open>.str\<close> accessor raises \<open>AttributeError\<close> on a column that is not of dtype
  \<open>object\<close>; a cell that is not text does not match.
\<close>

fun str_contains :: "(string \<Rightarrow> bool) \<Rightarrow> 'v cell \<Rightarrow> bool" where
  "str_contains m (Some (VStr s)) = m s"
| "str_contains m c = False"

definition filter_denumire :: "'v pylib \<Rightarrow> string \<Rightarrow> 'v dataframe \<Rightarrow> error + 'v dataframe" where
  "filter_denumire L denumire chunk =
     (case column_pos (columns chunk) ''denumire'' of
        None \<Rightarrow> Inl (KeyError ''denumire'')
      | Some j \<Rightarrow>
          if dtype_at chunk j \<noteq> Object then Inl AttributeError
          else (case re_search L (strip denumire) of
                  None \<Rightarrow> Inl ReError
                | Some m \<Rightarrow>
                    Inr (chunk\<lparr>rows := filter (\<lambda>r. str_contains m (cell_at r j)) (rows chunk)\<rparr>)))"

text \<open>The body of the loop, lines 68 to 71, on one chunk.\<close>

definition search_chunk ::
  "'v pylib \<Rightarrow> string option \<Rightarrow> string option \<Rightarrow> 'v dataframe \<Rightarrow> error + 'v dataframe" where
  "search_chunk L cif denumire chunk =
     (case (case cif of
              Some c \<Rightarrow> if truthy cif then filter_cif L c chunk else Inr chunk
            | None \<Rightarrow> Inr chunk) of
        Inl e \<Rightarrow> Inl e
      | Inr chunk1 \<Rightarrow>
          (case denumire of
             Some d \<Rightarrow> if truthy denumire then filter_denumire L d chunk1 else Inr chunk1
           | None \<Rightarrow> Inr chunk1))"

text \<open>
  The loop of lines 67 to 73 over the chunks that the reader yields, with the list
  \<open>matches\<close> as its state. An exception ends the scan.
\<close>

fun search_loop ::
  "'v pylib \<Rightarrow> string option \<Rightarrow> string option \<Rightarrow> 'v dataframe list \<Rightarrow> 'v dataframe list
     \<Rightarrow> error + 'v dataframe list" where
  "search_loop L cif denumire matches [] = Inr matches"
| "search_loop L cif denumire matches (chunk # rest) =
     (case search_chunk L cif denumire chunk of
        Inl e \<Rightarrow> Inl e
      | Inr chunk1 \<Rightarrow>
          search_loop L cif denumire
            (if \<not> empty chunk1 then matches @ [chunk1] else matches) rest)"

text \<open>Lines 66 to 74 on the chunks read.\<close>

definition search_chunks ::
  "'v pylib \<Rightarrow> string option \<Rightarrow> string option \<Rightarrow> 'v dataframe list \<Rightarrow> error + 'v dataframe" where
  "search_chunks L cif denumire chunks =
     (case search_loop L cif denumire [] chunks of
        Inl e \<Rightarrow> Inl e
      | Inr matches \<Rightarrow> Inr (if matches \<noteq> [] then pd_concat matches else pd_DataFrame))"

definition search_csv ::
  "'v pylib \<Rightarrow> source \<Rightarrow> string option \<Rightarrow> string option \<Rightarrow> nat \<Rightarrow> error + 'v dataframe" where
  "search_csv L url cif denumire chunksize =
     (case read_csv L url chunksize of
        Inl e \<Rightarrow> Inl e
      | Inr chunks \<Rightarrow> search_chunks L cif denumire chunks)"


section \<open>Aggregate-Scan: \<open>aggregate_caen\<close>\<close>

text \<open>
  A \<open>defaultdict\<close> is an association list in insertion order. \<open>d[k] += x\<close> adds to the
  stored value, or stores \<open>dflt + x\<close> under a new key at the end, where \<open>dflt\<close> is what
  the default factory returns (\<open>int()\<close> or \<open>float()\<close>, both zero).
\<close>

fun defaultdict_iadd :: "string \<Rightarrow> 'a \<Rightarrow> 'a::plus \<Rightarrow> (string \<times> 'a) list \<Rightarrow> (string \<times> 'a) list" where
  "defaultdict_iadd k dflt x [] = [(k, dflt + x)]"
| "defaultdict_iadd k dflt x ((k', v) # d) =
     (if k' = k then (k', v + x) # d else (k', v) # defaultdict_iadd k dflt x d)"

record 'v accumulator =
  counts :: "(string \<times> int) list"
  sums :: "(string \<times> 'v) list"

text \<open>
  Lines 92 and 93: the first label whose lower case equals \<open>caen_col\<close>, and the first
  label whose lower case has \<open>afaceri_col\<close> as a substring; \<open>None\<close> is \<open>StopIteration\<close>.
\<close>

definition resolve_caen :: "string \<Rightarrow> string list \<Rightarrow> string option" where
  "resolve_caen caen_col cols = find (\<lambda>c. lower c = caen_col) cols"

definition resolve_afaceri :: "string \<Rightarrow> string list \<Rightarrow> string option" where
  "resolve_afaceri afaceri_col cols = find (\<lambda>c. str_in afaceri_col (lower c)) cols"

text \<open>
  Line 97: \<open>chunk[[caen_real, afaceri_real]].dropna()\<close>. Both labels come from the
  header of the chunk. The rows that are left have a scalar in both columns.
\<close>

definition select2 :: "'v dataframe \<Rightarrow> string \<Rightarrow> string \<Rightarrow> ('v cell \<times> 'v cell) list" where
  "select2 chunk a b =
     (case (column_pos (columns chunk) a, column_pos (columns chunk) b) of
        (Some i, Some j) \<Rightarrow> map (\<lambda>r. (cell_at r i, cell_at r j)) (rows chunk)
      | _ \<Rightarrow> [])"

fun dropna :: "('v cell \<times> 'v cell) list \<Rightarrow> ('v scalar \<times> 'v scalar) list" where
  "dropna [] = []"
| "dropna ((Some g, Some v) # rs) = (g, v) # dropna rs"
| "dropna (_ # rs) = dropna rs"

text \<open>Lines 102 and 103: \<open>counts[caen] += 1\<close> and \<open>sums[caen] += cifra\<close>.\<close>

definition accumulate :: "string \<Rightarrow> 'v \<Rightarrow> ('v::{plus,zero}) accumulator \<Rightarrow> 'v accumulator" where
  "accumulate caen cifra acc =
     \<lparr>counts = defaultdict_iadd caen 0 1 (counts acc),
      sums = defaultdict_iadd caen 0 cifra (sums acc)\<rparr>"

text \<open>
  Lines 99 to 105, one row: \<open>float\<close> is called before either dictionary is touched, and
  the bare \<open>except\<close> goes on to the next row.
\<close>

definition process_row ::
  "('v::{plus,zero}) pylib \<Rightarrow> 'v accumulator \<Rightarrow> 'v scalar \<times> 'v scalar \<Rightarrow> 'v accumulator" where
  "process_row L acc row =
     (let caen = py_str L (fst row)
      in case py_float L (snd row) of
           None \<Rightarrow> acc
         | Some cifra \<Rightarrow> accumulate caen cifra acc)"

text \<open>Lines 90 to 105, one chunk: \<open>continue\<close> leaves the accumulators as they are.\<close>

definition process_chunk ::
  "('v::{plus,zero}) pylib \<Rightarrow> string \<Rightarrow> string \<Rightarrow> 'v accumulator \<Rightarrow> 'v dataframe \<Rightarrow> 'v accumulator" where
  "process_chunk L caen_col afaceri_col acc chunk =
     (case resolve_caen caen_col (columns chunk) of
        None \<Rightarrow> acc
      | Some caen_real \<Rightarrow>
          (case resolve_afaceri afaceri_col (columns chunk) of
             None \<Rightarrow> acc
           | Some afaceri_real \<Rightarrow>
               foldl (process_row L) acc (dropna (select2 chunk caen_real afaceri_real))))"

text \<open>Lines 86 to 105: the scan over the chunks read, from two empty dictionaries.\<close>

definition aggregate_scan ::
  "('v::{plus,zero}) pylib \<Rightarrow> string \<Rightarrow> string \<Rightarrow> 'v dataframe list \<Rightarrow> 'v accumulator" where
  "aggregate_scan L caen_col afaceri_col chunks =
     foldl (process_chunk L caen_col afaceri_col) \<lparr>counts = [], sums = []\<rparr> chunks"

text \<open>
  A row of the returned table: \<open>Cod CAEN\<close>, \<open>Numar firme\<close> and \<open>Suma cifra afaceri\<close>.
\<close>

record 'v agg_row =
  cod_caen :: string
  numar_firme :: int
  suma :: 'v

text \<open>
  \<open>sort_values(by=..., ascending=False)\<close>: the rows whose sum is not NaN in descending
  order of the sum, then the rows whose sum is NaN (\<open>na_position\<close> is \<open>last\<close> by
  default), these in the order they had. Rows with equal sums are kept in the order
  they had, which is one of the orders pandas may give them. The rows are compared
  with \<open><\<close> on the float type, which for Python floats is not a linear order.
\<close>

fun place_desc :: "('v::ord) agg_row \<Rightarrow> 'v agg_row list \<Rightarrow> 'v agg_row list" where
  "place_desc r [] = [r]"
| "place_desc r (t # ts) =
     (if suma r < suma t then t # place_desc r ts else r # t # ts)"

definition descending :: "('v::ord) agg_row list \<Rightarrow> 'v agg_row list" where
  "descending rs = foldr place_desc rs []"

definition sort_values_desc :: "('v::ord) pylib \<Rightarrow> 'v agg_row list \<Rightarrow> 'v agg_row list" where
  "sort_values_desc L rs =
     descending (filter (\<lambda>r. \<not> isnan L (suma r)) rs) @ filter (\<lambda>r. isnan L (suma r)) rs"

text \<open>
  Lines 107 to 110: the rows of the frame built from the keys of \<open>counts\<close>, the values
  of \<open>counts\<close> and the values of \<open>sums\<close>, position by position.
\<close>

definition unsorted_table :: "'v accumulator \<Rightarrow> 'v agg_row list" where
  "unsorted_table acc =
     map (\<lambda>(kc, s). \<lparr>cod_caen = fst kc, numar_firme = snd kc, suma = s\<rparr>)
       (zip (counts acc) (map snd (sums acc)))"

text \<open>
  Lines 107 to 111: the constructor raises \<open>ValueError\<close> when the three lists differ in
  length; the frame is then sorted.
\<close>

definition make_table :: "('v::ord) pylib \<Rightarrow> 'v accumulator \<Rightarrow> error + 'v agg_row list" where
  "make_table L acc =
     (if length (counts acc) = length (sums acc)
      then Inr (sort_values_desc L (unsorted_table acc))
      else Inl ValueError)"

definition aggregate_chunks ::
  "('v::{plus,zero,ord}) pylib \<Rightarrow> string \<Rightarrow> string \<Rightarrow> 'v dataframe list \<Rightarrow> error + 'v agg_row list" where
  "aggregate_chunks L caen_col afaceri_col chunks =
     make_table L (aggregate_scan L caen_col afaceri_col chunks)"

definition aggregate_caen ::
  "('v::{plus,zero,ord}) pylib \<Rightarrow> source \<Rightarrow> string \<Rightarrow> string \<Rightarrow> nat \<Rightarrow> error + 'v agg_row list" where
  "aggregate_caen L url caen_col afaceri_col chunksize =
     (case read_csv L url chunksize of
        Inl e \<Rightarrow> Inl e
      | Inr chunks \<Rightarrow> aggregate_chunks L caen_col afaceri_col chunks)"


section \<open>What the specification says of the scans\<close>

text \<open>
  The rows that count for Aggregate-Scan, in the words of the specification: the rows
  of the chunks in which both columns resolve, that have an entry in both resolved
  columns and whose value entry coerces to a float. Each is given as its key (the
  grouping entry as a string) and its coerced value, in the order of the source.
\<close>

definition valid_row :: "'v pylib \<Rightarrow> 'v cell \<times> 'v cell \<Rightarrow> (string \<times> 'v) option" where
  "valid_row L p =
     (case p of
        (Some g, Some v) \<Rightarrow> map_option (\<lambda>x. (py_str L g, x)) (py_float L v)
      | _ \<Rightarrow> None)"

definition valid_rows ::
  "'v pylib \<Rightarrow> string \<Rightarrow> string \<Rightarrow> 'v dataframe list \<Rightarrow> (string \<times> 'v) list" where
  "valid_rows L caen_col afaceri_col chunks =
     concat (map (\<lambda>chunk.
        case (resolve_caen caen_col (columns chunk), resolve_afaceri afaceri_col (columns chunk)) of
          (Some a, Some b) \<Rightarrow> List.map_filter (valid_row L) (select2 chunk a b)
        | _ \<Rightarrow> []) chunks)"

text \<open>The coerced values of the valid rows of one key, in the order of the source.\<close>

definition values_of :: "string \<Rightarrow> (string \<times> 'v) list \<Rightarrow> 'v list" where
  "values_of k vs = map snd (filter (\<lambda>p. fst p = k) vs)"

text \<open>
  The two dictionaries agree: the same keys in the same order, each key once, and no
  count below one.
\<close>

definition paired :: "'v accumulator \<Rightarrow> bool" where
  "paired acc =
     (map fst (counts acc) = map fst (sums acc) \<and>
      distinct (map fst (counts acc)) \<and>
      list_all (\<lambda>kc. 1 \<le> snd kc) (counts acc))"


section \<open>A library instance on whole numbers\<close>

text \<open>
  To run the model on concrete sources, the library parameters are instantiated for
  files whose fields are unsigned decimal integers of at most 18 digits, empty, or
  other text, where every column of a chunk that holds other text holds a field that
  no parser reads as a number, a boolean or a missing value. On such files
  \<open>read_csv\<close> reads a column as \<open>int64\<close> when every field of the chunk is a number, as
  \<open>float64\<close> when every field is a number or empty, and as \<open>object\<close> otherwise (also
  when the chunk has no row); an empty field is a missing cell and text is kept as it
  is written. Floats are the whole numbers, printed by \<open>str\<close> with a trailing \<open>.0\<close>;
  \<open>float\<close> of a text is taken to raise unless the text is such a number. A search
  pattern is taken to be free of regular-expression operators.
\<close>

definition is_digit :: "char \<Rightarrow> bool" where
  "is_digit c = (let n = (of_char c :: nat) in 48 \<le> n \<and> n \<le> 57)"

definition is_number :: "string \<Rightarrow> bool" where
  "is_number s = (s \<noteq> [] \<and> length s \<le> 18 \<and> list_all is_digit s)"

definition int_of_digits :: "string \<Rightarrow> int" where
  "int_of_digits s = foldl (\<lambda>a c. 10 * a + (int (of_char c) - 48)) 0 s"

definition infer_whole :: "string list \<Rightarrow> dtype" where
  "infer_whole fs =
     (if fs = [] then Object
      else if list_all is_number fs then Int64
      else if list_all (\<lambda>s. s = [] \<or> is_number s) fs then Float64
      else Object)"

fun parse_whole :: "dtype \<Rightarrow> string \<Rightarrow> int cell" where
  "parse_whole Int64 s = Some (VInt (int_of_digits s))"
| "parse_whole Float64 s = (if s = [] then None else Some (VFlt (int_of_digits s)))"
| "parse_whole BoolT s = None"
| "parse_whole Object s = (if s = [] then None else Some (VStr s))"

definition whole_lib :: "int pylib" where
  "whole_lib =
     \<lparr>float_of_str = (\<lambda>s. if is_number s then Some (int_of_digits s) else None),
      float_of_int = (\<lambda>i. i),
      str_of_float = (\<lambda>x. str_int x @ ''.0''),
      isnan = (\<lambda>x. False),
      re_search = (\<lambda>p. Some (\<lambda>s. str_in (lower p) (lower s))),
      infer_dtype = infer_whole,
      parse_field = parse_whole\<rparr>"


section \<open>A library instance with infinities and NaN\<close>

text \<open>
  Python floats are not linearly ordered: every comparison with NaN is false, and the
  sum of the two infinities is NaN. To run the model where that matters, the floats
  are instantiated by the whole numbers with both infinities and NaN, under the
  comparisons and the addition of IEEE 754. The files are as for the instance above,
  with the fields \<open>inf\<close> and \<open>-inf\<close> besides, which \<open>read_csv\<close> reads as floats.
\<close>

datatype xfloat = NegInf | Finite int | PosInf | NaN

fun xfloat_le :: "xfloat \<Rightarrow> xfloat \<Rightarrow> bool" where
  "xfloat_le NaN y = False"
| "xfloat_le x NaN = False"
| "xfloat_le NegInf y = True"
| "xfloat_le x PosInf = True"
| "xfloat_le (Finite a) (Finite b) = (a \<le> b)"
| "xfloat_le x y = False"

fun xfloat_add :: "xfloat \<Rightarrow> xfloat \<Rightarrow> xfloat" where
  "xfloat_add NaN y = NaN"
| "xfloat_add x NaN = NaN"
| "xfloat_add PosInf NegInf = NaN"
| "xfloat_add NegInf PosInf = NaN"
| "xfloat_add PosInf y = PosInf"
| "xfloat_add x PosInf = PosInf"
| "xfloat_add NegInf y = NegInf"
| "xfloat_add x NegInf = NegInf"
| "xfloat_add (Finite a) (Finite b) = Finite (a + b)"

instantiation xfloat :: "{plus, zero, ord}"
begin

definition plus_xfloat :: "xfloat \<Rightarrow> xfloat \<Rightarrow> xfloat" where
  "plus_xfloat x y = xfloat_add x y"

definition zero_xfloat :: xfloat where
  "zero_xfloat = Finite 0"

definition less_eq_xfloat :: "xfloat \<Rightarrow> xfloat \<Rightarrow> bool" where
  "less_eq_xfloat x y = xfloat_le x y"

definition less_xfloat :: "xfloat \<Rightarrow> xfloat \<Rightarrow> bool" where
  "less_xfloat x y = (xfloat_le x y \<and> x \<noteq> y)"

instance ..

end

definition is_float_text :: "string \<Rightarrow> bool" where
  "is_float_text s = (s = [] \<or> is_number s \<or> s = ''inf'' \<or> s = ''-inf'')"

definition xfloat_of_text :: "string \<Rightarrow> xfloat" where
  "xfloat_of_text s =
     (if s = ''inf'' then PosInf else if s = ''-inf'' then NegInf else Finite (int_of_digits s))"

definition infer_xfloat :: "string list \<Rightarrow> dtype" where
  "infer_xfloat fs =
     (if fs = [] then Object
      else if list_all is_number fs then Int64
      else if list_all is_float_text fs then Float64
      else Object)"

fun parse_xfloat :: "dtype \<Rightarrow> string \<Rightarrow> xfloat cell" where
  "parse_xfloat Int64 s = Some (VInt (int_of_digits s))"
| "parse_xfloat Float64 s = (if s = [] then None else Some (VFlt (xfloat_of_text s)))"
| "parse_xfloat BoolT s = None"
| "parse_xfloat Object s = (if s = [] then None else Some (VStr s))"

fun str_xfloat :: "xfloat \<Rightarrow> string" where
  "str_xfloat (Finite i) = str_int i @ ''.0''"
| "str_xfloat PosInf = ''inf''"
| "str_xfloat NegInf = ''-inf''"
| "str_xfloat NaN = ''nan''"

definition xfloat_lib :: "xfloat pylib" where
  "xfloat_lib =
     \<lparr>float_of_str = (\<lambda>s. if is_float_text s \<and> s \<noteq> [] then Some (xfloat_of_text s) else None),
      float_of_int = Finite,
      str_of_float = str_xfloat,
      isnan = (\<lambda>x. x = NaN),
      re_search = (\<lambda>p. Some (\<lambda>s. str_in (lower p) (lower s))),
      infer_dtype = infer_xfloat,
      parse_field = parse_xfloat\<rparr>"


section \<open>Example sources\<close>

text \<open>
  A file of four firms, read in chunks of two. The value column of the second chunk
  holds a field that is not a number, so the whole column of that chunk is text.
\<close>

definition firms :: source where
  "firms = \<lparr>header = [''Cod CAEN'', ''Cifra de afaceri neta''],
             records = [[''C10'', ''100''], [''C10'', ''50''], [''J62'', ''200''], [''J62'', ''abc'']]\<rparr>"

definition firms_chunk1 :: "int dataframe" where
  "firms_chunk1 =
     \<lparr>columns = [''Cod CAEN'', ''Cifra de afaceri neta''], dtypes = [Object, Int64],
      rows = [[Some (VStr ''C10''), Some (VInt 100)], [Some (VStr ''C10''), Some (VInt 50)]]\<rparr>"

definition firms_chunk2 :: "int dataframe" where
  "firms_chunk2 =
     \<lparr>columns = [''Cod CAEN'', ''Cifra de afaceri neta''], dtypes = [Object, Object],
      rows = [[Some (VStr ''J62''), Some (VStr ''200'')], [Some (VStr ''J62''), Some (VStr ''abc'')]]\<rparr>"

text \<open>A chunk whose header has no grouping column.\<close>

definition other_chunk :: "int dataframe" where
  "other_chunk =
     \<lparr>columns = [''Denumire'', ''Cifra de afaceri neta''], dtypes = [Object, Int64],
      rows = [[Some (VStr ''Alpha SRL''), Some (VInt 7)]]\<rparr>"



text \<open>
  A register of two firms under the labels that \<open>search_csv\<close> looks up, and the one
  chunk it is read as when the chunk size is \<open>CHUNKSIZE\<close>.
\<close>

definition registry :: source where
  "registry = \<lparr>header = [''cod fiscal'', ''denumire''],
                records = [[''123'', ''Alpha SRL''], [''456'', ''Beta SA'']]\<rparr>"

definition registry_chunk :: "int dataframe" where
  "registry_chunk =
     \<lparr>columns = [''cod fiscal'', ''denumire''], dtypes = [Int64, Object],
      rows = [[Some (VInt 123), Some (VStr ''Alpha SRL'')],
              [Some (VInt 456), Some (VStr ''Beta SA'')]]\<rparr>"

text \<open>
  The same register with white space around the first code; the second code has
  letters, so the column is text and the first code keeps its white space.
\<close>

definition padded :: source where
  "padded = \<lparr>header = [''cod fiscal'', ''denumire''],
              records = [['' 123 '', ''Alpha SRL''], [''RO456'', ''Beta SA'']]\<rparr>"

definition padded_chunk :: "int dataframe" where
  "padded_chunk =
     \<lparr>columns = [''cod fiscal'', ''denumire''], dtypes = [Object, Object],
      rows = [[Some (VStr '' 123 ''), Some (VStr ''Alpha SRL'')],
              [Some (VStr ''RO456''), Some (VStr ''Beta SA'')]]\<rparr>"

text \<open>The register under capitalised labels.\<close>

definition capitalised :: source where
  "capitalised = \<lparr>header = [''Cod fiscal'', ''Denumire''],
                   records = [[''123'', ''Alpha SRL''], [''456'', ''Beta SA'']]\<rparr>"

definition capitalised_chunk :: "int dataframe" where
  "capitalised_chunk =
     \<lparr>columns = [''Cod fiscal'', ''Denumire''], dtypes = [Int64, Object],
      rows = [[Some (VInt 123), Some (VStr ''Alpha SRL'')],
              [Some (VInt 456), Some (VStr ''Beta SA'')]]\<rparr>"

text \<open>
  A register whose second firm has no code. Read in one chunk, the code column has a
  missing cell and is a float column; read row by row, the first chunk has an integer
  column.
\<close>

definition blank_code :: source where
  "blank_code = \<lparr>header = [''cod fiscal'', ''denumire''],
                  records = [[''123'', ''Alpha SRL''], [[], ''Beta SA'']]\<rparr>"

definition blank_code_whole :: "int dataframe" where
  "blank_code_whole =
     \<lparr>columns = [''cod fiscal'', ''denumire''], dtypes = [Float64, Object],
      rows = [[Some (VFlt 123), Some (VStr ''Alpha SRL'')],
              [None, Some (VStr ''Beta SA'')]]\<rparr>"

definition blank_code_first :: "int dataframe" where
  "blank_code_first =
     \<lparr>columns = [''cod fiscal'', ''denumire''], dtypes = [Int64, Object],
      rows = [[Some (VInt 123), Some (VStr ''Alpha SRL'')]]\<rparr>"

definition blank_code_second :: "int dataframe" where
  "blank_code_second =
     \<lparr>columns = [''cod fiscal'', ''denumire''], dtypes = [Float64, Object],
      rows = [[None, Some (VStr ''Beta SA'')]]\<rparr>"


text \<open>
  A file in which the values of one key are the two infinities, and the chunk it is
  read as.
\<close>

definition extremes :: source where
  "extremes = \<lparr>header = [''cod caen'', ''cifra de afaceri''],
                records = [[''A'', ''inf''], [''A'', ''-inf''], [''B'', ''5''], [''C'', ''7'']]\<rparr>"

definition extremes_chunk :: "xfloat dataframe" where
  "extremes_chunk =
     \<lparr>columns = [''cod caen'', ''cifra de afaceri''], dtypes = [Object, Float64],
      rows = [[Some (VStr ''A''), Some (VFlt PosInf)],
              [Some (VStr ''A''), Some (VFlt NegInf)],
              [Some (VStr ''B''), Some (VFlt (Finite 5))],
              [Some (VStr ''C''), Some (VFlt (Finite 7))]]\<rparr>"


section \<open>Lemmas on the dictionaries and on the sort\<close>

lemma find_none_iff: "(find P xs = None) = (\<forall>x\<in>set xs. \<not> P x)"
  by (induction xs) auto

lemma keys_iadd:
  "map fst (defaultdict_iadd k d x al) = (if k \<in> set (map fst al) then map fst al else map fst al @ [k])"
  by (induction al) force+

lemma map_of_iadd:
  "map_of (defaultdict_iadd k d x al) k' =
     (if k' = k then Some ((case map_of al k of None \<Rightarrow> d | Some v \<Rightarrow> v) + x) else map_of al k')"
  by (induction al) auto

lemma counts_iadd_pos:
  "list_all (\<lambda>kc. (1::int) \<le> snd kc) al \<Longrightarrow> list_all (\<lambda>kc. 1 \<le> snd kc) (defaultdict_iadd k 0 1 al)"
  by (induction al) auto

lemma sum_counts_iadd:
  "sum_list (map snd (defaultdict_iadd k 0 (1::int) al)) = sum_list (map snd al) + 1"
  by (induction al) auto

lemma paired_accumulate:
  assumes "paired acc"
  shows "paired (accumulate k x acc)"
proof -
  have e: "map fst (counts acc) = map fst (sums acc)"
    and d0: "distinct (map fst (counts acc))"
    and p: "list_all (\<lambda>kc. 1 \<le> snd kc) (counts acc)"
    using assms unfolding paired_def by blast+
  from d0 e have d: "distinct (map fst (sums acc))"
    by simp
  show ?thesis
    unfolding paired_def accumulate_def
    using d p by (simp add: keys_iadd counts_iadd_pos e)
qed

lemma paired_process_row: "paired acc \<Longrightarrow> paired (process_row L acc row)"
  by (simp add: process_row_def paired_accumulate split: option.splits)

lemma paired_rows: "paired acc \<Longrightarrow> paired (foldl (process_row L) acc rs)"
  by (induction rs arbitrary: acc) (simp_all add: paired_process_row)

lemma paired_process_chunk: "paired acc \<Longrightarrow> paired (process_chunk L a b acc chunk)"
  by (simp add: process_chunk_def paired_rows split: option.splits)

lemma paired_chunks: "paired acc \<Longrightarrow> paired (foldl (process_chunk L a b) acc chunks)"
  by (induction chunks arbitrary: acc) (simp_all add: paired_process_chunk)

lemma paired_scan: "paired (aggregate_scan L a b chunks)"
  unfolding aggregate_scan_def by (rule paired_chunks) (simp add: paired_def)

lemma set_place_desc: "set (place_desc r ts) = insert r (set ts)"
  by (induction ts) auto

lemma set_descending: "set (descending rs) = set rs"
  unfolding descending_def by (induction rs) (simp_all add: set_place_desc)

lemma set_sort_values_desc: "set (sort_values_desc L rs) = set rs"
  by (auto simp: sort_values_desc_def set_descending)

lemma length_place_desc: "length (place_desc r ts) = Suc (length ts)"
  by (induction ts) auto

lemma length_descending: "length (descending rs) = length rs"
  unfolding descending_def by (induction rs) (simp_all add: length_place_desc)

lemma length_sort_values_desc: "length (sort_values_desc L rs) = length rs"
  by (simp add: sort_values_desc_def length_descending sum_length_filter_compl[of "\<lambda>r. \<not> isnan L (suma r)" rs, simplified])

lemma sum_place_desc: "sum_list (map numar_firme (place_desc r ts)) = numar_firme r + sum_list (map numar_firme ts)"
  by (induction ts) auto

lemma sum_descending: "sum_list (map numar_firme (descending rs)) = sum_list (map numar_firme rs)"
  unfolding descending_def by (induction rs) (simp_all add: sum_place_desc)

lemma sum_partition:
  "sum_list (map numar_firme (filter (\<lambda>r. \<not> P r) rs)) + sum_list (map numar_firme (filter P rs)) =
   sum_list (map numar_firme rs)"
  by (induction rs) simp_all

lemma sum_sort_values_desc:
  "sum_list (map numar_firme (sort_values_desc L rs)) = sum_list (map numar_firme rs)"
  by (simp add: sort_values_desc_def sum_descending sum_partition)

lemma distinct_place_desc:
  "distinct (map cod_caen (place_desc r ts)) = (cod_caen r \<notin> cod_caen ` set ts \<and> distinct (map cod_caen ts))"
  by (induction ts) (auto simp: set_place_desc)

lemma distinct_descending:
  "distinct (map cod_caen (descending rs)) = distinct (map cod_caen rs)"
  unfolding descending_def
  by (induction rs) (simp_all add: distinct_place_desc set_descending[unfolded descending_def])

lemma distinct_sort_values_desc:
  assumes "distinct (map cod_caen rs)"
  shows "distinct (map cod_caen (sort_values_desc L rs))"
proof -
  let ?good = "filter (\<lambda>r. \<not> isnan L (suma r)) rs"
  let ?bad = "filter (\<lambda>r. isnan L (suma r)) rs"
  from assms have inj: "inj_on cod_caen (set rs)"
    by (simp add: distinct_map)
  have g: "distinct (map cod_caen (descending ?good))"
    using assms by (simp add: distinct_descending distinct_map_filter)
  have b: "distinct (map cod_caen ?bad)"
    using assms by (simp add: distinct_map_filter)
  have "cod_caen ` set ?good \<inter> cod_caen ` set ?bad = {}"
  proof (rule ccontr)
    assume "cod_caen ` set ?good \<inter> cod_caen ` set ?bad \<noteq> {}"
    then obtain x y where x: "x \<in> set ?good" and y: "y \<in> set ?bad"
      and e: "cod_caen x = cod_caen y"
      by auto
    from x y have "x \<in> set rs" and "y \<in> set rs"
      by simp_all
    with inj e have "x = y"
      by (rule inj_onD)
    with x y show False
      by simp
  qed
  with g b show ?thesis
    by (simp add: sort_values_desc_def set_descending)
qed

lemma sorted_place_desc:
  fixes r :: "('v::ord) agg_row"
  assumes lin: "\<forall>x y :: 'v. \<not> nan x \<longrightarrow> \<not> nan y \<longrightarrow> x < y \<or> y \<le> x"
    and trans: "\<forall>x y z :: 'v. x \<le> y \<longrightarrow> y \<le> z \<longrightarrow> x \<le> z"
    and less_le: "\<forall>x y :: 'v. x < y \<longrightarrow> x \<le> y"
    and r: "\<not> nan (suma r)"
    and ts: "list_all (\<lambda>t. \<not> nan (suma t)) ts"
    and sorted: "sorted_wrt (\<lambda>x y. suma y \<le> suma x) ts"
  shows "sorted_wrt (\<lambda>x y. suma y \<le> suma x) (place_desc r ts)"
  using ts sorted
proof (induction ts)
  case Nil
  show ?case by simp
next
  case (Cons t ts)
  from Cons.prems have t: "\<not> nan (suma t)"
    and ts': "list_all (\<lambda>t. \<not> nan (suma t)) ts"
    and below: "\<forall>y\<in>set ts. suma y \<le> suma t"
    and sorted': "sorted_wrt (\<lambda>x y. suma y \<le> suma x) ts"
    by simp_all
  show ?case
  proof (cases "suma r < suma t")
    case True
    then have "suma r \<le> suma t"
      using less_le by blast
    with True below Cons.IH[OF ts' sorted'] show ?thesis
      by (simp add: set_place_desc)
  next
    case False
    with lin r t have rt: "suma t \<le> suma r"
      by blast
    have "\<forall>y\<in>set ts. suma y \<le> suma r"
      using below rt trans by blast
    with False rt Cons.prems(2) show ?thesis
      by simp
  qed
qed

lemma sorted_descending:
  fixes rs :: "('v::ord) agg_row list"
  assumes lin: "\<forall>x y :: 'v. \<not> nan x \<longrightarrow> \<not> nan y \<longrightarrow> x < y \<or> y \<le> x"
    and trans: "\<forall>x y z :: 'v. x \<le> y \<longrightarrow> y \<le> z \<longrightarrow> x \<le> z"
    and less_le: "\<forall>x y :: 'v. x < y \<longrightarrow> x \<le> y"
    and rs: "list_all (\<lambda>t. \<not> nan (suma t)) rs"
  shows "sorted_wrt (\<lambda>x y. suma y \<le> suma x) (descending rs)"
  using rs
proof (induction rs)
  case Nil
  show ?case by (simp add: descending_def)
next
  case (Cons r rs)
  from Cons.prems have r: "\<not> nan (suma r)" and rs': "list_all (\<lambda>t. \<not> nan (suma t)) rs"
    by simp_all
  have all: "list_all (\<lambda>t. \<not> nan (suma t)) (descending rs)"
    using rs' by (simp add: list_all_iff set_descending)
  have "sorted_wrt (\<lambda>x y. suma y \<le> suma x) (place_desc r (descending rs))"
    using lin trans less_le r all Cons.IH[OF rs'] by (rule sorted_place_desc)
  then show ?case
    by (simp add: descending_def)
qed

lemma nan_last_adjacent:
  assumes good: "list_all (\<lambda>r. \<not> nan (suma r)) good"
    and bad: "list_all (\<lambda>r. nan (suma r)) bad"
    and sorted: "sorted_wrt (\<lambda>x y. suma y \<le> suma x) good"
    and i: "Suc i < length (good @ bad)"
    and n: "\<not> nan (suma ((good @ bad) ! Suc i))"
  shows "suma ((good @ bad) ! Suc i) \<le> suma ((good @ bad) ! i)"
proof -
  have "Suc i < length good"
  proof (rule ccontr)
    assume "\<not> Suc i < length good"
    with i have "(good @ bad) ! Suc i \<in> set bad"
      by (simp add: nth_append)
    with bad have "nan (suma ((good @ bad) ! Suc i))"
      by (simp add: list_all_iff)
    with n show False ..
  qed
  then have "suma (good ! Suc i) \<le> suma (good ! i)"
    using sorted_wrt_nth_less[OF sorted, of i "Suc i"] by simp
  with \<open>Suc i < length good\<close> show ?thesis
    by (simp add: nth_append)
qed

lemma process_row_valid:
  "process_row L acc (g, v) = (case valid_row L (Some g, Some v) of None \<Rightarrow> acc | Some (k, x) \<Rightarrow> accumulate k x acc)"
  by (simp add: process_row_def valid_row_def split: option.splits)

lemma rows_as_valid:
  "foldl (process_row L) acc (dropna ps) =
   foldl (\<lambda>acc (k, x). accumulate k x acc) acc (List.map_filter (valid_row L) ps)"
proof (induction ps arbitrary: acc)
  case Nil
  show ?case by simp
next
  case (Cons p ps)
  obtain c d where p: "p = (c, d)" by (cases p)
  show ?case
  proof (cases c)
    case None
    then show ?thesis
      by (simp add: p valid_row_def Cons.IH)
  next
    case g: (Some g)
    show ?thesis
    proof (cases d)
      case None
      then show ?thesis
        by (simp add: p g valid_row_def Cons.IH)
    next
      case (Some v)
      then show ?thesis
        by (cases "valid_row L (Some g, Some v)")
           (auto simp: p g process_row_valid Cons.IH)
    qed
  qed
qed

lemma chunk_as_valid:
  "process_chunk L a b acc chunk =
   foldl (\<lambda>acc (k, x). accumulate k x acc) acc (valid_rows L a b [chunk])"
  by (simp add: process_chunk_def valid_rows_def rows_as_valid split: option.splits)

lemma valid_rows_Cons:
  "valid_rows L a b (chunk # chunks) = valid_rows L a b [chunk] @ valid_rows L a b chunks"
  by (simp add: valid_rows_def)

lemma chunks_as_valid:
  "foldl (process_chunk L a b) acc chunks =
   foldl (\<lambda>acc (k, x). accumulate k x acc) acc (valid_rows L a b chunks)"
proof (induction chunks arbitrary: acc)
  case Nil
  show ?case by (simp add: valid_rows_def)
next
  case (Cons chunk chunks)
  have "foldl (process_chunk L a b) acc (chunk # chunks) =
        foldl (process_chunk L a b) (process_chunk L a b acc chunk) chunks"
    by simp
  also have "\<dots> = foldl (\<lambda>acc (k, x). accumulate k x acc) (process_chunk L a b acc chunk)
                      (valid_rows L a b chunks)"
    by (rule Cons.IH)
  also have "\<dots> = foldl (\<lambda>acc (k, x). accumulate k x acc) acc
                      (valid_rows L a b [chunk] @ valid_rows L a b chunks)"
    by (simp add: chunk_as_valid)
  finally show ?case
    by (simp only: valid_rows_Cons[of L a b chunk chunks])
qed

lemma scan_as_valid:
  "aggregate_scan L a b chunks =
   foldl (\<lambda>acc (k, x). accumulate k x acc) \<lparr>counts = [], sums = []\<rparr> (valid_rows L a b chunks)"
  by (simp add: aggregate_scan_def chunks_as_valid)


lemma counts_accumulate: "counts (accumulate k x acc) = defaultdict_iadd k 0 1 (counts acc)"
  by (simp add: accumulate_def)

lemma sums_accumulate: "sums (accumulate k x acc) = defaultdict_iadd k 0 x (sums acc)"
  by (simp add: accumulate_def)

lemma values_of_snoc:
  "values_of k (vs @ [(k', x)]) = values_of k vs @ (if k' = k then [x] else [])"
  by (simp add: values_of_def)

lemma values_of_empty_iff: "(values_of k vs = []) = (k \<notin> fst ` set vs)"
  by (induction vs) (auto simp: values_of_def)

lemma sums_of_valid:
  "map_of (sums (foldl (\<lambda>acc (k, x). accumulate k x acc) \<lparr>counts = [], sums = []\<rparr> vs)) k =
     (if values_of k vs = [] then None else Some (foldl (+) 0 (values_of k vs)))"
proof (induction vs arbitrary: k rule: rev_induct)
  case Nil
  show ?case by (simp add: values_of_def)
next
  case (snoc p vs)
  obtain k' x where p: "p = (k', x)" by (cases p)
  show ?case
    by (simp add: p counts_accumulate sums_accumulate map_of_iadd snoc.IH values_of_snoc)
qed

lemma counts_of_valid:
  "map_of (counts (foldl (\<lambda>acc (k, x). accumulate k x acc) \<lparr>counts = [], sums = []\<rparr> vs)) k =
     (if values_of k vs = [] then None else Some (int (length (values_of k vs))))"
proof (induction vs arbitrary: k rule: rev_induct)
  case Nil
  show ?case by (simp add: values_of_def)
next
  case (snoc p vs)
  obtain k' x where p: "p = (k', x)" by (cases p)
  show ?case
    by (simp add: p counts_accumulate sums_accumulate map_of_iadd snoc.IH values_of_snoc)
qed

lemma total_of_valid:
  "sum_list (map snd (counts (foldl (\<lambda>acc (k, x). accumulate k x acc) \<lparr>counts = [], sums = []\<rparr> vs))) =
     int (length vs)"
proof (induction vs rule: rev_induct)
  case Nil
  show ?case by simp
next
  case (snoc p vs)
  obtain k' x where p: "p = (k', x)" by (cases p)
  show ?case
    by (simp add: p counts_accumulate sum_counts_iadd snoc.IH)
qed

lemma keys_of_valid:
  "set (map fst (counts (foldl (\<lambda>acc (k, x). accumulate k x acc) \<lparr>counts = [], sums = []\<rparr> vs))) =
     fst ` set vs"
proof (induction vs rule: rev_induct)
  case Nil
  show ?case by simp
next
  case (snoc p vs)
  obtain k' x where p: "p = (k', x)" by (cases p)
  show ?case
    using snoc.IH by (auto simp: p counts_accumulate keys_iadd)
qed

lemma paired_length: "paired acc \<Longrightarrow> length (counts acc) = length (sums acc)"
  unfolding paired_def by (metis length_map)

lemma make_table_paired:
  "paired acc \<Longrightarrow> make_table L acc = Inr (sort_values_desc L (unsorted_table acc))"
  by (simp add: make_table_def unsorted_table_def paired_length)

lemma keys_unsorted_table:
  "length (counts acc) = length (sums acc) \<Longrightarrow> map cod_caen (unsorted_table acc) = map fst (counts acc)"
proof -
  assume len: "length (counts acc) = length (sums acc)"
  have "map cod_caen (unsorted_table acc) = map fst (map fst (zip (counts acc) (map snd (sums acc))))"
    by (simp add: unsorted_table_def split_beta comp_def)
  then show ?thesis
    using len by simp
qed

lemma numbers_unsorted_table:
  "length (counts acc) = length (sums acc) \<Longrightarrow> map numar_firme (unsorted_table acc) = map snd (counts acc)"
proof -
  assume len: "length (counts acc) = length (sums acc)"
  have "map numar_firme (unsorted_table acc) = map snd (map fst (zip (counts acc) (map snd (sums acc))))"
    by (simp add: unsorted_table_def split_beta comp_def)
  then show ?thesis
    using len by simp
qed

lemma row_unsorted_table:
  assumes "paired acc" and "r \<in> set (unsorted_table acc)"
  shows "map_of (counts acc) (cod_caen r) = Some (numar_firme r) \<and>
         map_of (sums acc) (cod_caen r) = Some (suma r)"
proof -
  have e: "map fst (counts acc) = map fst (sums acc)"
    and d: "distinct (map fst (counts acc))"
    using assms(1) unfolding paired_def by blast+
  have len: "length (counts acc) = length (sums acc)"
    using assms(1) by (rule paired_length)
  from assms(2) obtain i where i: "i < length (counts acc)"
    and r: "r = \<lparr>cod_caen = fst (counts acc ! i), numar_firme = snd (counts acc ! i),
                 suma = snd (sums acc ! i)\<rparr>"
    by (auto simp: unsorted_table_def set_zip len split_beta)
  have "fst (sums acc ! i) = fst (counts acc ! i)"
    using e i len by (metis nth_map)
  then have s: "(cod_caen r, suma r) \<in> set (sums acc)"
    using i len r by (metis agg_row.select_convs(1,3) nth_mem prod.collapse)
  have c: "(cod_caen r, numar_firme r) \<in> set (counts acc)"
    using i r by (metis agg_row.select_convs(1,2) nth_mem prod.collapse)
  from d e have d': "distinct (map fst (sums acc))" by simp
  show ?thesis
    using c s d d' by simp
qed

lemma paired_distinct: "paired acc \<Longrightarrow> distinct (map fst (counts acc))"
  unfolding paired_def by blast

lemma aggregate_chunks_table:
  "aggregate_chunks L a b chunks =
     Inr (sort_values_desc L (unsorted_table (aggregate_scan L a b chunks)))"
  by (simp add: aggregate_chunks_def make_table_paired paired_scan)

lemma aggregate_caen_table:
  "read_csv L url n = Inr chunks \<Longrightarrow>
   aggregate_caen L url a b n =
     Inr (sort_values_desc L (unsorted_table (aggregate_scan L a b chunks)))"
  by (simp add: aggregate_caen_def aggregate_chunks_table)

lemma skip_row:
  "py_float L v = None \<Longrightarrow> process_row L acc (g, v) = acc"
  by (simp add: process_row_def)

lemma skip_chunk:
  assumes "(\<forall>c\<in>set (columns chunk). lower c \<noteq> caen_col) \<or>
           (\<forall>c\<in>set (columns chunk). \<not> str_in afaceri_col (lower c))"
  shows "process_chunk L caen_col afaceri_col acc chunk = acc"
proof -
  from assms have "resolve_caen caen_col (columns chunk) = None \<or>
                   resolve_afaceri afaceri_col (columns chunk) = None"
    by (simp add: resolve_caen_def resolve_afaceri_def find_none_iff)
  then show ?thesis
    by (auto simp: process_chunk_def split: option.splits)
qed


subsection \<open>The example file, evaluated\<close>

lemma firms_read: "read_csv whole_lib firms 2 = Inr [firms_chunk1, firms_chunk2]"
  by code_simp

lemma firms_valid:
  "valid_rows whole_lib ''cod caen'' ''cifra de afaceri'' [firms_chunk1, firms_chunk2] =
     [(''C10'', 100), (''C10'', 50), (''J62'', 200)]"
  by code_simp

lemma firms_scan:
  "aggregate_scan whole_lib ''cod caen'' ''cifra de afaceri'' [firms_chunk1, firms_chunk2] =
     \<lparr>counts = [(''C10'', 2), (''J62'', 1)], sums = [(''C10'', 150), (''J62'', 200)]\<rparr>"
  by code_simp

lemma firms_table:
  "aggregate_caen whole_lib firms ''cod caen'' ''cifra de afaceri'' 2 =
     Inr [\<lparr>cod_caen = ''J62'', numar_firme = 1, suma = 200\<rparr>,
          \<lparr>cod_caen = ''C10'', numar_firme = 2, suma = 150\<rparr>]"
  by code_simp

lemma firms_chunks_table:
  "aggregate_chunks whole_lib ''cod caen'' ''cifra de afaceri'' [firms_chunk1, firms_chunk2] =
     Inr [\<lparr>cod_caen = ''J62'', numar_firme = 1, suma = 200\<rparr>,
          \<lparr>cod_caen = ''C10'', numar_firme = 2, suma = 150\<rparr>]"
  by code_simp


section \<open>Lemmas on the reader and on the search loop\<close>

lemma concat_windows: "0 < n \<Longrightarrow> concat (windows n xs) = xs"
proof (induction n xs rule: windows.induct)
  case (1 n xs)
  show ?case
  proof (cases "xs = []")
    case True
    then show ?thesis
      by (subst windows.simps) simp
  next
    case False
    with "1.prems" have "concat (windows n (drop n xs)) = drop n xs"
      by (intro "1.IH") simp_all
    with False "1.prems" show ?thesis
      by (subst windows.simps) simp
  qed
qed

lemma columns_read_chunk: "columns (read_chunk L hdr w) = hdr"
  by (simp add: read_chunk_def Let_def)

lemma length_rows_read_chunk: "length (rows (read_chunk L hdr w)) = length w"
  by (simp add: read_chunk_def Let_def)

lemma read_csv_columns:
  assumes "read_csv L url n = Inr chunks" and "chunk \<in> set chunks"
  shows "columns chunk = header url \<and> header url \<noteq> []"
  using assms by (auto simp: read_csv_def columns_read_chunk split: if_splits)

lemma length_concat_rows:
  "length (concat (map rows (map (read_chunk L hdr) ws))) = length (concat ws)"
  by (induction ws) (simp_all add: length_rows_read_chunk)

lemma read_csv_length:
  assumes "read_csv L url n = Inr chunks"
  shows "length (concat (map rows chunks)) = length (records url)"
proof (cases "records url = []")
  case True
  with assms show ?thesis
    by (auto simp: read_csv_def read_chunk_def Let_def split: if_splits)
next
  case False
  with assms have n: "0 < n" and c: "chunks = map (read_chunk L (header url)) (windows n (records url))"
    by (auto simp: read_csv_def split: if_splits)
  show ?thesis
    unfolding c length_concat_rows by (simp only: concat_windows[OF n])
qed

lemma rows_pd_concat: "rows (pd_concat dfs) = concat (map rows dfs)"
  by (simp add: pd_concat_def)

lemma rows_search_result:
  "rows (if ms \<noteq> [] then pd_concat ms else pd_DataFrame) = concat (map rows ms)"
  by (simp add: rows_pd_concat pd_DataFrame_def)

lemma concat_rows_nonempty:
  "concat (map rows (filter (\<lambda>c. \<not> empty c) cs)) =
   concat (map rows (filter (\<lambda>c. columns c \<noteq> []) cs))"
  by (induction cs) (auto simp: empty_def)

lemma rows_of_filtered:
  "concat (map rows (map (\<lambda>chunk. chunk\<lparr>rows := filter P (rows chunk)\<rparr>) chunks)) =
   filter P (concat (map rows chunks))"
  by (induction chunks) simp_all

text \<open>The loop as a map over the chunks, when no chunk raises.\<close>

lemma search_loop_ok:
  assumes "\<forall>chunk\<in>set chunks. search_chunk L cif den chunk = Inr (f chunk)"
  shows "search_loop L cif den ms chunks = Inr (ms @ filter (\<lambda>c. \<not> empty c) (map f chunks))"
  using assms by (induction chunks arbitrary: ms) simp_all

lemma search_chunks_ok:
  assumes "\<forall>chunk\<in>set chunks. search_chunk L cif den chunk = Inr (f chunk)"
  shows "\<exists>df. search_chunks L cif den chunks = Inr df \<and>
              rows df = concat (map rows (filter (\<lambda>c. columns c \<noteq> []) (map f chunks)))"
  by (simp add: search_chunks_def search_loop_ok[OF assms] rows_search_result concat_rows_nonempty
           del: if_split split del: if_split)

lemma search_chunk_falsy_cif:
  "search_chunk L (Some []) den chunk = search_chunk L None den chunk"
  by (simp add: search_chunk_def)

lemma search_chunk_falsy_denumire:
  "search_chunk L cif (Some []) chunk = search_chunk L cif None chunk"
  by (simp add: search_chunk_def split: sum.splits)

lemma search_loop_falsy_cif:
  "search_loop L (Some []) den ms chunks = search_loop L None den ms chunks"
  by (induction chunks arbitrary: ms) (simp_all add: search_chunk_falsy_cif split: sum.splits)

lemma search_loop_falsy_denumire:
  "search_loop L cif (Some []) ms chunks = search_loop L cif None ms chunks"
  by (induction chunks arbitrary: ms) (simp_all add: search_chunk_falsy_denumire split: sum.splits)


subsection \<open>The example registers, evaluated\<close>

lemma windows_single:
  "0 < n \<Longrightarrow> xs \<noteq> [] \<Longrightarrow> length xs \<le> n \<Longrightarrow> windows n xs = [xs]"
  by (subst windows.simps, simp, subst windows.simps, simp)

lemma read_csv_single:
  "header url \<noteq> [] \<Longrightarrow> records url \<noteq> [] \<Longrightarrow> length (records url) \<le> n \<Longrightarrow>
   read_csv L url n = Inr [read_chunk L (header url) (records url)]"
  by (cases "n = 0") (auto simp: read_csv_def windows_single)

lemma registry_chunk_read:
  "read_chunk whole_lib (header registry) (records registry) = registry_chunk"
  by code_simp

lemma registry_read: "read_csv whole_lib registry CHUNKSIZE = Inr [registry_chunk]"
  by (simp add: read_csv_single registry_chunk_read[symmetric] registry_def CHUNKSIZE_def)

lemma padded_chunk_read:
  "read_chunk whole_lib (header padded) (records padded) = padded_chunk"
  by code_simp

lemma padded_read: "read_csv whole_lib padded CHUNKSIZE = Inr [padded_chunk]"
  by (simp add: read_csv_single padded_chunk_read[symmetric] padded_def CHUNKSIZE_def)

lemma capitalised_chunk_read:
  "read_chunk whole_lib (header capitalised) (records capitalised) = capitalised_chunk"
  by code_simp

lemma capitalised_read: "read_csv whole_lib capitalised CHUNKSIZE = Inr [capitalised_chunk]"
  by (simp add: read_csv_single capitalised_chunk_read[symmetric] capitalised_def CHUNKSIZE_def)

lemma blank_code_read_whole: "read_csv whole_lib blank_code 2 = Inr [blank_code_whole]"
  by code_simp

lemma blank_code_read_rows:
  "read_csv whole_lib blank_code 1 = Inr [blank_code_first, blank_code_second]"
  by code_simp

lemma registry_search_none:
  "search_chunks whole_lib None None [registry_chunk] = Inr registry_chunk"
  by code_simp

lemma registry_search_123:
  "search_chunks whole_lib (Some ''123'') None [registry_chunk] =
     Inr (registry_chunk\<lparr>rows := [[Some (VInt 123), Some (VStr ''Alpha SRL'')]]\<rparr>)"
  by code_simp

lemma registry_search_123_spaced:
  "search_chunks whole_lib (Some '' 123 '') None [registry_chunk] =
     Inr (registry_chunk\<lparr>rows := [[Some (VInt 123), Some (VStr ''Alpha SRL'')]]\<rparr>)"
  by code_simp

lemma padded_search_123:
  "search_chunks whole_lib (Some ''123'') None [padded_chunk] = Inr pd_DataFrame"
  by code_simp

lemma capitalised_search_123:
  "search_chunks whole_lib (Some ''123'') None [capitalised_chunk] = Inl (KeyError ''cod fiscal'')"
  by code_simp

lemma blank_code_search_whole:
  "search_chunks whole_lib (Some ''123'') None [blank_code_whole] = Inr pd_DataFrame"
  by code_simp

lemma blank_code_search_rows:
  "search_chunks whole_lib (Some ''123'') None [blank_code_first, blank_code_second] =
     Inr blank_code_first"
  by code_simp


subsection \<open>The file with infinities, evaluated\<close>

lemma isnan_xfloat_lib: "isnan xfloat_lib x = (x = NaN)"
  by (simp add: xfloat_lib_def)

lemma xfloat_linear:
  "\<forall>x y. \<not> isnan xfloat_lib x \<longrightarrow> \<not> isnan xfloat_lib y \<longrightarrow> x < y \<or> y \<le> x"
proof (intro allI impI)
  fix x y :: xfloat
  assume "\<not> isnan xfloat_lib x" and "\<not> isnan xfloat_lib y"
  then show "x < y \<or> y \<le> x"
    by (cases x; cases y) (auto simp: isnan_xfloat_lib less_xfloat_def less_eq_xfloat_def)
qed

lemma xfloat_trans: "\<forall>x y z :: xfloat. x \<le> y \<longrightarrow> y \<le> z \<longrightarrow> x \<le> z"
proof (intro allI impI)
  fix x y z :: xfloat
  assume "x \<le> y" and "y \<le> z"
  then show "x \<le> z"
    by (cases x; cases y; cases z) (auto simp: less_eq_xfloat_def)
qed

lemma xfloat_less_le: "\<forall>x y :: xfloat. x < y \<longrightarrow> x \<le> y"
  by (simp add: less_xfloat_def less_eq_xfloat_def)

lemma extremes_chunk_read:
  "read_chunk xfloat_lib (header extremes) (records extremes) = extremes_chunk"
  by code_simp

lemma extremes_read: "read_csv xfloat_lib extremes CHUNKSIZE = Inr [extremes_chunk]"
  by (simp add: read_csv_single extremes_chunk_read[symmetric] extremes_def CHUNKSIZE_def)

lemma extremes_chunks_table:
  "aggregate_chunks xfloat_lib ''cod caen'' ''cifra de afaceri'' [extremes_chunk] =
     Inr [\<lparr>cod_caen = ''C'', numar_firme = 1, suma = Finite 7\<rparr>,
          \<lparr>cod_caen = ''B'', numar_firme = 1, suma = Finite 5\<rparr>,
          \<lparr>cod_caen = ''A'', numar_firme = 2, suma = NaN\<rparr>]"
  by code_simp

lemma extremes_table:
  "aggregate_caen xfloat_lib extremes ''cod caen'' ''cifra de afaceri'' CHUNKSIZE =
     Inr [\<lparr>cod_caen = ''C'', numar_firme = 1, suma = Finite 7\<rparr>,
          \<lparr>cod_caen = ''B'', numar_firme = 1, suma = Finite 5\<rparr>,
          \<lparr>cod_caen = ''A'', numar_firme = 2, suma = NaN\<rparr>]"
  by (simp add: aggregate_caen_def extremes_read extremes_chunks_table)


section \<open>Aggregate-Scan: the claims\<close>

text \<open>
  C4. A row whose value entry does not coerce to a float is skipped without an error
  and leaves the accumulator as it was: no count and no sum of any key changes, and the
  scan of the rows goes on as if the row were not there.
\<close>

theorem coercion_failure_leaves_accumulator:
  assumes "py_float L v = None"
  shows "process_row L acc (g, v) = acc \<and>
         foldl (process_row L) acc (before @ (g, v) # after) =
           foldl (process_row L) acc (before @ after)"
  using assms by (simp add: skip_row)

theorem coercion_failure_leaves_accumulator_witness:
  "py_float whole_lib (VStr ''abc'') = None \<and>
   process_row whole_lib \<lparr>counts = [(''J62'', 1)], sums = [(''J62'', 200)]\<rparr>
       (VStr ''J62'', VStr ''abc'') =
     \<lparr>counts = [(''J62'', 1)], sums = [(''J62'', 200)]\<rparr> \<and>
   foldl (process_row whole_lib) \<lparr>counts = [], sums = []\<rparr>
       ([(VStr ''C10'', VInt 100)] @ (VStr ''J62'', VStr ''abc'') # [(VStr ''J62'', VStr ''200'')]) =
     foldl (process_row whole_lib) \<lparr>counts = [], sums = []\<rparr>
       ([(VStr ''C10'', VInt 100)] @ [(VStr ''J62'', VStr ''200'')])"
proof -
  have h: "py_float whole_lib (VStr ''abc'') = None"
    by code_simp
  from coercion_failure_leaves_accumulator[OF h,
      of "\<lparr>counts = [(''J62'', 1)], sums = [(''J62'', 200)]\<rparr>" "VStr ''J62''"]
  have a: "process_row whole_lib \<lparr>counts = [(''J62'', 1)], sums = [(''J62'', 200)]\<rparr>
             (VStr ''J62'', VStr ''abc'') =
           \<lparr>counts = [(''J62'', 1)], sums = [(''J62'', 200)]\<rparr>"
    by (rule conjunct1)
  from coercion_failure_leaves_accumulator[OF h,
      of "\<lparr>counts = [], sums = []\<rparr>" "VStr ''J62''"
         "[(VStr ''C10'', VInt 100)]" "[(VStr ''J62'', VStr ''200'')]"]
  have b: "foldl (process_row whole_lib) \<lparr>counts = [], sums = []\<rparr>
             ([(VStr ''C10'', VInt 100)] @ (VStr ''J62'', VStr ''abc'') # [(VStr ''J62'', VStr ''200'')]) =
           foldl (process_row whole_lib) \<lparr>counts = [], sums = []\<rparr>
             ([(VStr ''C10'', VInt 100)] @ [(VStr ''J62'', VStr ''200'')])"
    by (rule conjunct2)
  from h a b show ?thesis by (intro conjI)
qed

text \<open>
  C5. A chunk in whose header no label equals the grouping name after lower-casing, or
  no label contains the value fragment after lower-casing, adds nothing to the
  accumulator, and the scan goes on with the chunks after it: the scan of all chunks
  is the scan of the others.
\<close>

theorem unresolved_chunk_contributes_nothing:
  assumes "(\<forall>c\<in>set (columns chunk). lower c \<noteq> caen_col) \<or>
           (\<forall>c\<in>set (columns chunk). \<not> str_in afaceri_col (lower c))"
  shows "process_chunk L caen_col afaceri_col acc chunk = acc \<and>
         aggregate_scan L caen_col afaceri_col (before @ chunk # after) =
           aggregate_scan L caen_col afaceri_col (before @ after)"
  using assms by (simp add: aggregate_scan_def skip_chunk)

theorem unresolved_chunk_contributes_nothing_witness:
  "resolve_caen ''cod caen'' (columns other_chunk) = None \<and>
   process_chunk whole_lib ''cod caen'' ''cifra de afaceri''
       \<lparr>counts = [(''C10'', 2)], sums = [(''C10'', 150)]\<rparr> other_chunk =
     \<lparr>counts = [(''C10'', 2)], sums = [(''C10'', 150)]\<rparr> \<and>
   aggregate_scan whole_lib ''cod caen'' ''cifra de afaceri''
       ([firms_chunk1] @ other_chunk # [firms_chunk2]) =
     \<lparr>counts = [(''C10'', 2), (''J62'', 1)], sums = [(''C10'', 150), (''J62'', 200)]\<rparr>"
proof -
  have h: "(\<forall>c\<in>set (columns other_chunk). lower c \<noteq> ''cod caen'') \<or>
           (\<forall>c\<in>set (columns other_chunk). \<not> str_in ''cifra de afaceri'' (lower c))"
    by code_simp
  have r: "resolve_caen ''cod caen'' (columns other_chunk) = None"
    by code_simp
  from unresolved_chunk_contributes_nothing[OF h,
      of whole_lib "\<lparr>counts = [(''C10'', 2)], sums = [(''C10'', 150)]\<rparr>"
         "[firms_chunk1]" "[firms_chunk2]"]
  have a: "process_chunk whole_lib ''cod caen'' ''cifra de afaceri''
             \<lparr>counts = [(''C10'', 2)], sums = [(''C10'', 150)]\<rparr> other_chunk =
           \<lparr>counts = [(''C10'', 2)], sums = [(''C10'', 150)]\<rparr>"
    and b: "aggregate_scan whole_lib ''cod caen'' ''cifra de afaceri''
              ([firms_chunk1] @ other_chunk # [firms_chunk2]) =
            aggregate_scan whole_lib ''cod caen'' ''cifra de afaceri''
              ([firms_chunk1] @ [firms_chunk2])"
    by blast+
  from b have "aggregate_scan whole_lib ''cod caen'' ''cifra de afaceri''
                 ([firms_chunk1] @ other_chunk # [firms_chunk2]) =
               \<lparr>counts = [(''C10'', 2), (''J62'', 1)], sums = [(''C10'', 150), (''J62'', 200)]\<rparr>"
    by (simp add: firms_scan)
  with r a show ?thesis by (intro conjI)
qed

text \<open>
  C10. At every point of the scan, after any number of chunks and any number of further
  rows, the two dictionaries hold the same keys in the same order, each key once, and
  every count is at least one. The table therefore has one row per key, and each row
  holds the count and the sum stored under its key.
\<close>

theorem accumulators_stay_paired:
  fixes L :: "('v::{plus,zero,ord}) pylib"
  shows "paired (foldl (process_row L) (aggregate_scan L a b chunks) rs) \<and>
         (\<exists>t. aggregate_chunks L a b chunks = Inr t \<and>
              length t = length (counts (aggregate_scan L a b chunks)) \<and>
              (\<forall>r\<in>set t.
                 map_of (counts (aggregate_scan L a b chunks)) (cod_caen r) = Some (numar_firme r) \<and>
                 map_of (sums (aggregate_scan L a b chunks)) (cod_caen r) = Some (suma r)))"
proof -
  have p: "paired (aggregate_scan L a b chunks)"
    by (rule paired_scan)
  have "length (unsorted_table (aggregate_scan L a b chunks)) = length (counts (aggregate_scan L a b chunks))"
    using paired_length[OF p] by (simp add: unsorted_table_def)
  then show ?thesis
    using p row_unsorted_table[OF p]
    by (simp add: aggregate_chunks_table paired_rows set_sort_values_desc length_sort_values_desc)
qed

theorem accumulators_stay_paired_witness:
  "paired (foldl (process_row whole_lib)
             (aggregate_scan whole_lib ''cod caen'' ''cifra de afaceri'' [firms_chunk1])
             [(VStr ''J62'', VStr ''200'')]) \<and>
   aggregate_chunks whole_lib ''cod caen'' ''cifra de afaceri'' [firms_chunk1, firms_chunk2] =
     Inr [\<lparr>cod_caen = ''J62'', numar_firme = 1, suma = 200\<rparr>,
          \<lparr>cod_caen = ''C10'', numar_firme = 2, suma = 150\<rparr>] \<and>
   map_of (counts (aggregate_scan whole_lib ''cod caen'' ''cifra de afaceri'' [firms_chunk1, firms_chunk2]))
       ''C10'' = Some 2 \<and>
   map_of (sums (aggregate_scan whole_lib ''cod caen'' ''cifra de afaceri'' [firms_chunk1, firms_chunk2]))
       ''C10'' = Some 150"
proof -
  let ?acc = "aggregate_scan whole_lib ''cod caen'' ''cifra de afaceri'' [firms_chunk1, firms_chunk2]"
  let ?r = "\<lparr>cod_caen = ''C10'', numar_firme = 2, suma = 150\<rparr> :: int agg_row"
  have a: "paired (foldl (process_row whole_lib)
             (aggregate_scan whole_lib ''cod caen'' ''cifra de afaceri'' [firms_chunk1])
             [(VStr ''J62'', VStr ''200'')])"
    using accumulators_stay_paired[of whole_lib "''cod caen''" "''cifra de afaceri''"
        "[firms_chunk1]" "[(VStr ''J62'', VStr ''200'')]"]
    by (rule conjunct1)
  from accumulators_stay_paired[of whole_lib "''cod caen''" "''cifra de afaceri''"
        "[firms_chunk1, firms_chunk2]" "[]"]
  obtain t where t: "aggregate_chunks whole_lib ''cod caen'' ''cifra de afaceri''
                       [firms_chunk1, firms_chunk2] = Inr t"
    and each: "\<forall>r\<in>set t. map_of (counts ?acc) (cod_caen r) = Some (numar_firme r) \<and>
                            map_of (sums ?acc) (cod_caen r) = Some (suma r)"
    by blast
  from t have "t = [\<lparr>cod_caen = ''J62'', numar_firme = 1, suma = 200\<rparr>, ?r]"
    by (simp add: firms_chunks_table)
  then have "?r \<in> set t"
    by simp
  with each have "map_of (counts ?acc) (cod_caen ?r) = Some (numar_firme ?r) \<and>
                  map_of (sums ?acc) (cod_caen ?r) = Some (suma ?r)"
    by (rule bspec)
  then have b: "map_of (counts ?acc) ''C10'' = Some 2 \<and> map_of (sums ?acc) ''C10'' = Some 150"
    by simp
  from a firms_chunks_table b show ?thesis by (intro conjI) simp_all
qed

text \<open>
  C6. The claim as the specification states it fails. In the file whose key \<open>A\<close> has
  the two infinities as values, the sum of \<open>A\<close> is NaN; the sort puts that row last,
  after the row of \<open>B\<close> with sum 5, and \<open>5 \<ge> NaN\<close> is false as every comparison with
  NaN is.
\<close>

theorem sorted_by_sum_counterexample:
  "read_csv xfloat_lib extremes CHUNKSIZE = Inr [extremes_chunk] \<and>
   aggregate_caen xfloat_lib extremes ''cod caen'' ''cifra de afaceri'' CHUNKSIZE =
     Inr [\<lparr>cod_caen = ''C'', numar_firme = 1, suma = Finite 7\<rparr>,
          \<lparr>cod_caen = ''B'', numar_firme = 1, suma = Finite 5\<rparr>,
          \<lparr>cod_caen = ''A'', numar_firme = 2, suma = NaN\<rparr>] \<and>
   \<not> suma \<lparr>cod_caen = ''A'', numar_firme = 2, suma = NaN\<rparr>
       \<le> suma \<lparr>cod_caen = ''B'', numar_firme = 1, suma = Finite 5\<rparr>"
proof -
  have "\<not> suma \<lparr>cod_caen = ''A'', numar_firme = 2, suma = NaN\<rparr>
            \<le> suma \<lparr>cod_caen = ''B'', numar_firme = 1, suma = Finite 5\<rparr>"
    by (simp add: less_eq_xfloat_def)
  with extremes_read extremes_table show ?thesis
    by (intro conjI)
qed

text \<open>
  C6, amended. Where the floats that are not NaN are linearly ordered, as Python's
  are, the table that \<open>aggregate_caen\<close> returns has the rows whose sum is not NaN
  first, in descending order of the sum, and the rows whose sum is NaN last. So for
  every pair of adjacent rows \<open>i\<close> and \<open>i + 1\<close> in which the sum of row \<open>i + 1\<close> is not
  NaN, \<open>sum[i] \<ge> sum[i + 1]\<close>; the one adjacent pair that can fail is a number followed
  by the first NaN.
\<close>

theorem table_sorted_by_sum_nan_last:
  fixes L :: "('v::{plus,zero,ord}) pylib"
  assumes "read_csv L url chunksize = Inr chunks"
    and "\<forall>x y. \<not> isnan L x \<longrightarrow> \<not> isnan L y \<longrightarrow> x < y \<or> y \<le> x"
    and "\<forall>x y z :: 'v. x \<le> y \<longrightarrow> y \<le> z \<longrightarrow> x \<le> z"
    and "\<forall>x y :: 'v. x < y \<longrightarrow> x \<le> y"
  shows "\<exists>good bad.
           aggregate_caen L url caen_col afaceri_col chunksize = Inr (good @ bad) \<and>
           list_all (\<lambda>r. \<not> isnan L (suma r)) good \<and>
           list_all (\<lambda>r. isnan L (suma r)) bad \<and>
           sorted_wrt (\<lambda>x y. suma y \<le> suma x) good \<and>
           (\<forall>i. Suc i < length (good @ bad) \<longrightarrow>
                \<not> isnan L (suma ((good @ bad) ! Suc i)) \<longrightarrow>
                suma ((good @ bad) ! Suc i) \<le> suma ((good @ bad) ! i))"
proof -
  let ?u = "unsorted_table (aggregate_scan L caen_col afaceri_col chunks)"
  let ?good = "descending (filter (\<lambda>r. \<not> isnan L (suma r)) ?u)"
  let ?bad = "filter (\<lambda>r. isnan L (suma r)) ?u"
  have t: "aggregate_caen L url caen_col afaceri_col chunksize = Inr (?good @ ?bad)"
    by (simp add: aggregate_caen_table[OF assms(1)] sort_values_desc_def)
  have g: "list_all (\<lambda>r. \<not> isnan L (suma r)) ?good"
    by (simp add: list_all_iff set_descending)
  have b: "list_all (\<lambda>r. isnan L (suma r)) ?bad"
    by (simp add: list_all_iff)
  have "list_all (\<lambda>r. \<not> isnan L (suma r)) (filter (\<lambda>r. \<not> isnan L (suma r)) ?u)"
    by (simp add: list_all_iff)
  with assms(2,3,4) have s: "sorted_wrt (\<lambda>x y. suma y \<le> suma x) ?good"
    by (rule sorted_descending)
  have "\<forall>i. Suc i < length (?good @ ?bad) \<longrightarrow>
            \<not> isnan L (suma ((?good @ ?bad) ! Suc i)) \<longrightarrow>
            suma ((?good @ ?bad) ! Suc i) \<le> suma ((?good @ ?bad) ! i)"
    using nan_last_adjacent[OF g b s] by blast
  with t g b s show ?thesis
    by blast
qed

theorem table_sorted_by_sum_nan_last_witness:
  "read_csv xfloat_lib extremes CHUNKSIZE = Inr [extremes_chunk] \<and>
   aggregate_caen xfloat_lib extremes ''cod caen'' ''cifra de afaceri'' CHUNKSIZE =
     Inr [\<lparr>cod_caen = ''C'', numar_firme = 1, suma = Finite 7\<rparr>,
          \<lparr>cod_caen = ''B'', numar_firme = 1, suma = Finite 5\<rparr>,
          \<lparr>cod_caen = ''A'', numar_firme = 2, suma = NaN\<rparr>] \<and>
   suma \<lparr>cod_caen = ''B'', numar_firme = 1, suma = Finite 5\<rparr>
     \<le> suma \<lparr>cod_caen = ''C'', numar_firme = 1, suma = Finite 7\<rparr>"
proof -
  let ?t = "[\<lparr>cod_caen = ''C'', numar_firme = 1, suma = Finite 7\<rparr>,
             \<lparr>cod_caen = ''B'', numar_firme = 1, suma = Finite 5\<rparr>,
             \<lparr>cod_caen = ''A'', numar_firme = 2, suma = NaN\<rparr>]"
  from table_sorted_by_sum_nan_last[OF extremes_read xfloat_linear xfloat_trans xfloat_less_le,
      of "''cod caen''" "''cifra de afaceri''"]
  obtain good bad
    where t: "aggregate_caen xfloat_lib extremes ''cod caen'' ''cifra de afaceri'' CHUNKSIZE =
                Inr (good @ bad)"
      and adj: "\<forall>i. Suc i < length (good @ bad) \<longrightarrow>
                  \<not> isnan xfloat_lib (suma ((good @ bad) ! Suc i)) \<longrightarrow>
                  suma ((good @ bad) ! Suc i) \<le> suma ((good @ bad) ! i)"
    by blast
  from t have e: "good @ bad = ?t"
    by (simp add: extremes_table)
  from adj have "Suc 0 < length (good @ bad) \<longrightarrow>
                   \<not> isnan xfloat_lib (suma ((good @ bad) ! Suc 0)) \<longrightarrow>
                   suma ((good @ bad) ! Suc 0) \<le> suma ((good @ bad) ! 0)"
    by (rule spec)
  then have "suma (?t ! Suc 0) \<le> suma (?t ! 0)"
    unfolding e by (simp add: isnan_xfloat_lib)
  then have "suma \<lparr>cod_caen = ''B'', numar_firme = 1, suma = Finite 5\<rparr>
               \<le> suma \<lparr>cod_caen = ''C'', numar_firme = 1, suma = Finite 7\<rparr>"
    by simp
  with extremes_read extremes_table show ?thesis
    by (intro conjI)
qed

text \<open>
  C1. The counts of the returned table add up to the number of valid rows of the
  source: the rows of the chunks in which both columns resolve, with an entry in both
  columns and a value entry that coerces to a float. The keys of the table are the
  keys of the valid rows, each once, and the row of a key holds the number of valid
  rows of that key and the sum of their coerced values, added in the order of the
  source starting from zero.
\<close>

theorem aggregate_counts_and_sums:
  fixes L :: "('v::{plus,zero,ord}) pylib"
  assumes "read_csv L url chunksize = Inr chunks"
  shows "\<exists>t. aggregate_caen L url caen_col afaceri_col chunksize = Inr t \<and>
             sum_list (map numar_firme t) =
               int (length (valid_rows L caen_col afaceri_col chunks)) \<and>
             distinct (map cod_caen t) \<and>
             set (map cod_caen t) = fst ` set (valid_rows L caen_col afaceri_col chunks) \<and>
             (\<forall>r\<in>set t.
                suma r = foldl (+) 0 (values_of (cod_caen r) (valid_rows L caen_col afaceri_col chunks)) \<and>
                numar_firme r =
                  int (length (values_of (cod_caen r) (valid_rows L caen_col afaceri_col chunks))))"
proof -
  let ?vs = "valid_rows L caen_col afaceri_col chunks"
  let ?acc = "aggregate_scan L caen_col afaceri_col chunks"
  let ?u = "unsorted_table ?acc"
  have p: "paired ?acc" by (rule paired_scan)
  have len: "length (counts ?acc) = length (sums ?acc)" by (rule paired_length[OF p])
  have "sum_list (map numar_firme (sort_values_desc L ?u)) = sum_list (map snd (counts ?acc))"
    by (simp add: sum_sort_values_desc numbers_unsorted_table[OF len])
  also have "\<dots> = int (length ?vs)"
    by (simp add: scan_as_valid total_of_valid)
  finally have total: "sum_list (map numar_firme (sort_values_desc L ?u)) = int (length ?vs)" .
  have keys: "map cod_caen ?u = map fst (counts ?acc)"
    by (rule keys_unsorted_table[OF len])
  have dist: "distinct (map cod_caen (sort_values_desc L ?u))"
    using paired_distinct[OF p] by (intro distinct_sort_values_desc) (simp add: keys)
  have "set (map cod_caen (sort_values_desc L ?u)) = set (map cod_caen ?u)"
    by (simp add: set_sort_values_desc)
  also have "\<dots> = set (map fst (counts ?acc))"
    by (simp only: keys)
  also have "\<dots> = fst ` set ?vs"
    by (simp only: scan_as_valid keys_of_valid)
  finally have ks: "set (map cod_caen (sort_values_desc L ?u)) = fst ` set ?vs" .
  have each: "suma r = foldl (+) 0 (values_of (cod_caen r) ?vs) \<and>
              numar_firme r = int (length (values_of (cod_caen r) ?vs))"
    if "r \<in> set (sort_values_desc L ?u)" for r
  proof -
    from that have "r \<in> set ?u" by (simp add: set_sort_values_desc)
    from row_unsorted_table[OF p this]
    have c: "map_of (counts ?acc) (cod_caen r) = Some (numar_firme r)"
      and s: "map_of (sums ?acc) (cod_caen r) = Some (suma r)"
      by simp_all
    from s have "suma r = foldl (+) 0 (values_of (cod_caen r) ?vs)"
      by (simp add: scan_as_valid sums_of_valid split: if_splits)
    moreover from c have "numar_firme r = int (length (values_of (cod_caen r) ?vs))"
      by (simp add: scan_as_valid counts_of_valid split: if_splits)
    ultimately show ?thesis by simp
  qed
  show ?thesis
    unfolding aggregate_caen_table[OF assms]
    using total dist ks each by blast
qed

theorem aggregate_counts_and_sums_witness:
  "read_csv whole_lib firms 2 = Inr [firms_chunk1, firms_chunk2] \<and>
   valid_rows whole_lib ''cod caen'' ''cifra de afaceri'' [firms_chunk1, firms_chunk2] =
     [(''C10'', 100), (''C10'', 50), (''J62'', 200)] \<and>
   aggregate_caen whole_lib firms ''cod caen'' ''cifra de afaceri'' 2 =
     Inr [\<lparr>cod_caen = ''J62'', numar_firme = 1, suma = 200\<rparr>,
          \<lparr>cod_caen = ''C10'', numar_firme = 2, suma = 150\<rparr>] \<and>
   sum_list (map numar_firme
      [\<lparr>cod_caen = ''J62'', numar_firme = 1, suma = 200\<rparr>,
       \<lparr>cod_caen = ''C10'', numar_firme = 2, suma = (150::int)\<rparr>]) = 3 \<and>
   (150::int) = foldl (+) 0 (values_of ''C10'' [(''C10'', 100), (''C10'', 50), (''J62'', 200)])"
proof -
  let ?t = "[\<lparr>cod_caen = ''J62'', numar_firme = 1, suma = 200\<rparr>,
             \<lparr>cod_caen = ''C10'', numar_firme = 2, suma = 150\<rparr>] :: int agg_row list"
  let ?vs = "[(''C10'', 100), (''C10'', 50), (''J62'', 200)] :: (string \<times> int) list"
  let ?r = "\<lparr>cod_caen = ''C10'', numar_firme = 2, suma = 150\<rparr> :: int agg_row"
  from aggregate_counts_and_sums[OF firms_read, of "''cod caen''" "''cifra de afaceri''"]
  obtain t where t: "aggregate_caen whole_lib firms ''cod caen'' ''cifra de afaceri'' 2 = Inr t"
    and total: "sum_list (map numar_firme t) =
                  int (length (valid_rows whole_lib ''cod caen'' ''cifra de afaceri''
                                 [firms_chunk1, firms_chunk2]))"
    and each: "\<forall>r\<in>set t.
                 suma r = foldl (+) 0 (values_of (cod_caen r)
                            (valid_rows whole_lib ''cod caen'' ''cifra de afaceri''
                               [firms_chunk1, firms_chunk2])) \<and>
                 numar_firme r = int (length (values_of (cod_caen r)
                            (valid_rows whole_lib ''cod caen'' ''cifra de afaceri''
                               [firms_chunk1, firms_chunk2])))"
    by blast
  from t have e: "t = ?t"
    by (simp add: firms_table)
  from total have a: "sum_list (map numar_firme ?t) = 3"
    by (simp add: e firms_valid)
  have "?r \<in> set t"
    by (simp add: e)
  with each have "suma ?r = foldl (+) 0 (values_of (cod_caen ?r)
                            (valid_rows whole_lib ''cod caen'' ''cifra de afaceri''
                               [firms_chunk1, firms_chunk2])) \<and>
                 numar_firme ?r = int (length (values_of (cod_caen ?r)
                            (valid_rows whole_lib ''cod caen'' ''cifra de afaceri''
                               [firms_chunk1, firms_chunk2])))"
    by (rule bspec)
  then have b: "(150::int) = foldl (+) 0 (values_of ''C10'' ?vs)"
    by (simp add: firms_valid)
  from firms_read firms_valid firms_table a b show ?thesis by (intro conjI)
qed


section \<open>Filter-Scan: the claims\<close>

text \<open>
  C9. A criterion that is the empty string filters nothing: \<open>search_csv\<close> returns what
  it returns when that criterion is absent, whatever the other criterion is.
\<close>

theorem empty_criterion_is_absent:
  "search_csv L url (Some []) denumire chunksize = search_csv L url None denumire chunksize \<and>
   search_csv L url cif (Some []) chunksize = search_csv L url cif None chunksize"
  by (simp add: search_csv_def search_chunks_def search_loop_falsy_cif search_loop_falsy_denumire
           split: sum.splits)

theorem empty_criterion_is_absent_witness:
  "search_csv whole_lib registry (Some []) None CHUNKSIZE = Inr registry_chunk \<and>
   search_csv whole_lib registry (Some ''123'') (Some []) CHUNKSIZE =
     Inr (registry_chunk\<lparr>rows := [[Some (VInt 123), Some (VStr ''Alpha SRL'')]]\<rparr>)"
proof -
  have n: "search_csv whole_lib registry None None CHUNKSIZE = Inr registry_chunk"
    by (simp add: search_csv_def registry_read registry_search_none)
  have c: "search_csv whole_lib registry (Some ''123'') None CHUNKSIZE =
             Inr (registry_chunk\<lparr>rows := [[Some (VInt 123), Some (VStr ''Alpha SRL'')]]\<rparr>)"
    by (simp add: search_csv_def registry_read registry_search_123)
  from empty_criterion_is_absent[of whole_lib registry None CHUNKSIZE "Some ''123''"]
  have "search_csv whole_lib registry (Some []) None CHUNKSIZE =
          search_csv whole_lib registry None None CHUNKSIZE"
    and "search_csv whole_lib registry (Some ''123'') (Some []) CHUNKSIZE =
          search_csv whole_lib registry (Some ''123'') None CHUNKSIZE"
    by blast+
  with n c show ?thesis by simp
qed

text \<open>
  C8. With both criteria absent, \<open>search_csv\<close> returns every row of every chunk read,
  in the order read, and as many rows as the source has records.
\<close>

theorem no_criteria_copies_source:
  assumes "read_csv L url chunksize = Inr chunks"
  shows "\<exists>df. search_csv L url None None chunksize = Inr df \<and>
              rows df = concat (map rows chunks) \<and>
              length (rows df) = length (records url)"
proof -
  have "\<forall>chunk\<in>set chunks. search_chunk L None None chunk = Inr (id chunk)"
    by (simp add: search_chunk_def)
  from search_chunks_ok[OF this]
  obtain df where df: "search_chunks L None None chunks = Inr df"
    and r: "rows df = concat (map rows (filter (\<lambda>c. columns c \<noteq> []) chunks))"
    by auto
  have "filter (\<lambda>c. columns c \<noteq> []) chunks = chunks"
    using read_csv_columns[OF assms] by (simp add: filter_id_conv)
  with r have "rows df = concat (map rows chunks)"
    by simp
  with df show ?thesis
    by (simp add: search_csv_def assms read_csv_length[OF assms])
qed

theorem no_criteria_copies_source_witness:
  "read_csv whole_lib registry CHUNKSIZE = Inr [registry_chunk] \<and>
   search_csv whole_lib registry None None CHUNKSIZE = Inr registry_chunk \<and>
   rows registry_chunk =
     [[Some (VInt 123), Some (VStr ''Alpha SRL'')], [Some (VInt 456), Some (VStr ''Beta SA'')]] \<and>
   length (rows registry_chunk) = length (records registry)"
proof -
  from no_criteria_copies_source[OF registry_read]
  obtain df where df: "search_csv whole_lib registry None None CHUNKSIZE = Inr df"
    and r: "rows df = concat (map rows [registry_chunk])"
    and l: "length (rows df) = length (records registry)"
    by blast
  have n: "search_csv whole_lib registry None None CHUNKSIZE = Inr registry_chunk"
    by (simp add: search_csv_def registry_read registry_search_none)
  with df have e: "df = registry_chunk"
    by simp
  from r e have "rows registry_chunk =
     [[Some (VInt 123), Some (VStr ''Alpha SRL'')], [Some (VInt 456), Some (VStr ''Beta SA'')]]"
    by (simp add: registry_chunk_def)
  with registry_read n l e show ?thesis by simp
qed

text \<open>
  C2. The claim as the specification states it fails: in the padded register the first
  code, trimmed, equals the criterion \<open>123\<close>, and \<open>search_csv\<close> returns no row, because
  line 69 trims the criterion and compares it with the untrimmed cell.
\<close>

theorem trimmed_value_match_counterexample:
  "read_csv whole_lib padded CHUNKSIZE = Inr [padded_chunk] \<and>
   cell_at (hd (rows padded_chunk)) 0 = Some (VStr '' 123 '') \<and>
   strip (astype_str whole_lib (Some (VStr '' 123 ''))) = ''123'' \<and>
   search_csv whole_lib padded (Some ''123'') None CHUNKSIZE = Inr pd_DataFrame \<and>
   rows (pd_DataFrame :: int dataframe) = []"
proof -
  have a: "cell_at (hd (rows padded_chunk)) 0 = Some (VStr '' 123 '')"
    by code_simp
  have b: "strip (astype_str whole_lib (Some (VStr '' 123 ''))) = ''123''"
    by code_simp
  have c: "search_csv whole_lib padded (Some ''123'') None CHUNKSIZE = Inr pd_DataFrame"
    by (simp add: search_csv_def padded_read padded_search_123)
  have d: "rows (pd_DataFrame :: int dataframe) = []"
    by (simp add: pd_DataFrame_def)
  from padded_read a b c d show ?thesis by (intro conjI)
qed

text \<open>
  C2, amended. When the header has the label \<open>cod fiscal\<close>, the exact criterion \<open>C\<close> is
  not empty and no substring criterion is in force, \<open>search_csv\<close> returns exactly the
  rows read whose \<open>cod fiscal\<close> cell, as a string and untrimmed, equals \<open>C\<close> trimmed of
  surrounding white space, in the order read.
\<close>

theorem exact_criterion_matches_untrimmed_value:
  assumes "read_csv L url chunksize = Inr chunks"
    and "column_pos (header url) ''cod fiscal'' = Some j"
    and "C \<noteq> []"
    and "\<not> truthy denumire"
  shows "\<exists>df. search_csv L url (Some C) denumire chunksize = Inr df \<and>
              rows df = filter (\<lambda>r. astype_str L (cell_at r j) = strip C) (concat (map rows chunks))"
proof -
  let ?f = "\<lambda>chunk. chunk\<lparr>rows := filter (\<lambda>r. astype_str L (cell_at r j) = strip C) (rows chunk)\<rparr>"
  have ok: "\<forall>chunk\<in>set chunks. search_chunk L (Some C) denumire chunk = Inr (?f chunk)"
  proof
    fix chunk assume "chunk \<in> set chunks"
    then have "columns chunk = header url"
      using read_csv_columns[OF assms(1)] by simp
    then show "search_chunk L (Some C) denumire chunk = Inr (?f chunk)"
      using assms(2,3,4) by (cases denumire) (simp_all add: search_chunk_def filter_cif_def)
  qed
  from search_chunks_ok[OF ok]
  obtain df where df: "search_chunks L (Some C) denumire chunks = Inr df"
    and r: "rows df = concat (map rows (filter (\<lambda>c. columns c \<noteq> []) (map ?f chunks)))"
    by auto
  have "filter (\<lambda>c. columns c \<noteq> []) (map ?f chunks) = map ?f chunks"
    using read_csv_columns[OF assms(1)] by (simp add: filter_id_conv)
  with r have "rows df = concat (map rows (map ?f chunks))"
    by (simp only:)
  then have "rows df = filter (\<lambda>r. astype_str L (cell_at r j) = strip C) (concat (map rows chunks))"
    by (simp only: rows_of_filtered)
  with df show ?thesis
    by (simp add: search_csv_def assms(1))
qed

theorem exact_criterion_matches_untrimmed_value_witness:
  "read_csv whole_lib registry CHUNKSIZE = Inr [registry_chunk] \<and>
   column_pos (header registry) ''cod fiscal'' = Some 0 \<and>
   strip '' 123 '' = ''123'' \<and>
   search_csv whole_lib registry (Some '' 123 '') None CHUNKSIZE =
     Inr (registry_chunk\<lparr>rows := [[Some (VInt 123), Some (VStr ''Alpha SRL'')]]\<rparr>) \<and>
   astype_str whole_lib (cell_at [Some (VInt 123), Some (VStr ''Alpha SRL'')] 0) = ''123''"
proof -
  have p: "column_pos (header registry) ''cod fiscal'' = Some 0"
    by code_simp
  have c: "'' 123 '' \<noteq> []"
    by simp
  have d: "\<not> truthy None"
    by simp
  have s: "strip '' 123 '' = ''123''"
    by code_simp
  from exact_criterion_matches_untrimmed_value[OF registry_read p c d]
  obtain df where df: "search_csv whole_lib registry (Some '' 123 '') None CHUNKSIZE = Inr df"
    and r: "rows df = filter (\<lambda>r. astype_str whole_lib (cell_at r 0) = strip '' 123 '')
                        (concat (map rows [registry_chunk]))"
    by blast
  have v: "search_csv whole_lib registry (Some '' 123 '') None CHUNKSIZE =
             Inr (registry_chunk\<lparr>rows := [[Some (VInt 123), Some (VStr ''Alpha SRL'')]]\<rparr>)"
    by (simp add: search_csv_def registry_read registry_search_123_spaced)
  with df have "rows df = [[Some (VInt 123), Some (VStr ''Alpha SRL'')]]"
    by auto
  then have "[Some (VInt 123), Some (VStr ''Alpha SRL'')] \<in> set (rows df)"
    by simp
  then have "[Some (VInt 123), Some (VStr ''Alpha SRL'')] \<in>
                 set (filter (\<lambda>r. astype_str whole_lib (cell_at r 0) = strip '' 123 '')
                        (concat (map rows [registry_chunk])))"
    unfolding r .
  then have "astype_str whole_lib (cell_at [Some (VInt 123), Some (VStr ''Alpha SRL'')] 0) =
               strip '' 123 ''"
    by (simp only: set_filter mem_Collect_eq)
  then have m: "astype_str whole_lib (cell_at [Some (VInt 123), Some (VStr ''Alpha SRL'')] 0) = ''123''"
    by (simp only: s)
  from registry_read p s v m show ?thesis by (intro conjI)
qed

text \<open>
  C3. \<open>search_csv\<close> does not resolve its columns: it looks the labels up as written.
  On the register with capitalised labels the exact criterion raises \<open>KeyError\<close> in
  the first chunk and the scan ends with it, where \<open>aggregate_caen\<close> on a header
  without its columns goes on to the next chunk.
\<close>

theorem unresolved_search_column_raises:
  "read_csv whole_lib capitalised CHUNKSIZE = Inr [capitalised_chunk] \<and>
   search_csv whole_lib capitalised (Some ''123'') None CHUNKSIZE = Inl (KeyError ''cod fiscal'')"
  by (simp add: search_csv_def capitalised_read capitalised_search_123)

text \<open>
  C7. The rows that \<open>search_csv\<close> returns depend on the chunk size. In the register
  with a blank code, the criterion \<open>123\<close> finds the first firm when the file is read
  row by row, and finds nothing when both rows are read as one chunk: there the code
  column has a missing cell, so it is a float column and the code reads \<open>123.0\<close>.
\<close>

theorem chunk_size_changes_search_result:
  "read_csv whole_lib blank_code 1 = Inr [blank_code_first, blank_code_second] \<and>
   read_csv whole_lib blank_code 2 = Inr [blank_code_whole] \<and>
   search_csv whole_lib blank_code (Some ''123'') None 1 = Inr blank_code_first \<and>
   rows blank_code_first = [[Some (VInt 123), Some (VStr ''Alpha SRL'')]] \<and>
   search_csv whole_lib blank_code (Some ''123'') None 2 = Inr pd_DataFrame \<and>
   rows (pd_DataFrame :: int dataframe) = []"
proof -
  have a: "search_csv whole_lib blank_code (Some ''123'') None 1 = Inr blank_code_first"
    unfolding search_csv_def blank_code_read_rows
    by (simp add: blank_code_search_rows)
  have b: "search_csv whole_lib blank_code (Some ''123'') None 2 = Inr pd_DataFrame"
    unfolding search_csv_def blank_code_read_whole
    by (simp add: blank_code_search_whole)
  have c: "rows blank_code_first = [[Some (VInt 123), Some (VStr ''Alpha SRL'')]]"
    by (simp add: blank_code_first_def)
  have d: "rows (pd_DataFrame :: int dataframe) = []"
    by (simp add: pd_DataFrame_def)
  from blank_code_read_rows blank_code_read_whole a c b d show ?thesis
    by (intro conjI)
qed

end
